theory Spec2Isabelle
  imports Complex_Main "HOL-Library.Multiset" "HOL-Library.List_Lexorder" "HOL-Library.Char_ord"
begin

section \<open>Values, errors and frames\<close>

text \<open>
  The values of \<^verbatim>\<open>src/inventory_alert.py\<close> are what \<^verbatim>\<open>response.json()\<close> yields and what
  pandas keeps in a cell: \<^verbatim>\<open>None\<close>, the float NaN that pandas uses for a missing cell,
  booleans, numbers (Python's \<^verbatim>\<open>int\<close> and \<^verbatim>\<open>float\<close>, read as reals; rounding and
  infinities are not modelled), strings, lists and dicts (association lists whose keys
  are distinct, in insertion order).
\<close>

datatype pyval =
    PNone
  | PNaN
  | PBool bool
  | PNum real
  | PStr string
  | PList "pyval list"
  | PDict "(string \<times> pyval) list"

text \<open>
  The exceptions the program can meet. \<open>KeyError\<close> carries the labels that were not found;
  \<open>SystemExit\<close> is what \<^verbatim>\<open>exit()\<close> raises.
\<close>

datatype error =
    KeyError "string list"
  | ValueError
  | TypeError
  | NotImplementedError
  | SystemExit

text \<open>
  A row (a pandas \<^verbatim>\<open>Series\<close> indexed by column label) is the list of its labelled cells,
  in column order; a label is looked up from the left (pandas frames with a repeated label
  are outside the model). A \<^verbatim>\<open>DataFrame\<close> is its column labels, in order, and its rows, in
  order, each row carrying the frame's labels. The row index is the position
  (\<^verbatim>\<open>reset_index(drop=True)\<close>, line 205).
\<close>

type_synonym series = "(string \<times> pyval) list"

record dataframe =
  columns :: "string list"
  rows :: "series list"

definition cell :: "series \<Rightarrow> string \<Rightarrow> pyval" where
  \<comment> \<open>the cell under a label; a label the row does not carry reads as missing (NaN), as
      pandas fills it when frames are aligned\<close>
  "cell r c = (case map_of r c of None \<Rightarrow> PNaN | Some v \<Rightarrow> v)"

definition getitem :: "series \<Rightarrow> string \<Rightarrow> error + pyval" where
  \<comment> \<open>\<^verbatim>\<open>row[c]\<close>\<close>
  "getitem r c = (case map_of r c of None \<Rightarrow> Inl (KeyError [c]) | Some v \<Rightarrow> Inr v)"

fun row_set :: "string \<Rightarrow> pyval \<Rightarrow> series \<Rightarrow> series" where
  \<comment> \<open>\<^verbatim>\<open>row[c] = v\<close>: the cell is replaced in place, a new label goes last\<close>
  "row_set c v [] = [(c, v)]"
| "row_set c v ((k, x) # r) = (if k = c then (c, v) # r else (k, x) # row_set c v r)"

definition notna :: "pyval \<Rightarrow> bool" where
  \<comment> \<open>\<^verbatim>\<open>pd.notna\<close> on a scalar\<close>
  "notna v = (v \<noteq> PNone \<and> v \<noteq> PNaN)"

definition is_number :: "pyval \<Rightarrow> bool" where
  "is_number v = (case v of PNum _ \<Rightarrow> True | PBool _ \<Rightarrow> True | PNaN \<Rightarrow> True | _ \<Rightarrow> False)"

definition num_of :: "pyval \<Rightarrow> real option" where
  \<comment> \<open>the numeric value: Python's \<^verbatim>\<open>True\<close> and \<^verbatim>\<open>False\<close> are 1 and 0; NaN has none\<close>
  "num_of v = (case v of PNum x \<Rightarrow> Some x | PBool b \<Rightarrow> Some (if b then 1 else 0) | _ \<Rightarrow> None)"

definition py_le :: "pyval \<Rightarrow> pyval \<Rightarrow> error + bool" where
  \<comment> \<open>\<^verbatim>\<open>a <= b\<close>: numbers by value (any comparison with NaN is false), strings
      lexicographically, a number against a string or \<^verbatim>\<open>None\<close> is a TypeError. Ordering
      two lists or a list against anything is not modelled and reads as TypeError.\<close>
  "py_le a b =
     (if is_number a \<and> is_number b then
        (case (num_of a, num_of b) of (Some x, Some y) \<Rightarrow> Inr (x \<le> y) | _ \<Rightarrow> Inr False)
      else (case (a, b) of (PStr s, PStr t) \<Rightarrow> Inr (s \<le> t) | _ \<Rightarrow> Inl TypeError))"

definition py_lt :: "pyval \<Rightarrow> pyval \<Rightarrow> error + bool" where
  \<comment> \<open>\<^verbatim>\<open>a < b\<close>, as \<open>py_le\<close>\<close>
  "py_lt a b =
     (if is_number a \<and> is_number b then
        (case (num_of a, num_of b) of (Some x, Some y) \<Rightarrow> Inr (x < y) | _ \<Rightarrow> Inr False)
      else (case (a, b) of (PStr s, PStr t) \<Rightarrow> Inr (s < t) | _ \<Rightarrow> Inl TypeError))"

definition py_eq :: "pyval \<Rightarrow> pyval \<Rightarrow> bool" where
  \<comment> \<open>\<^verbatim>\<open>a == b\<close>: numbers by value, NaN equal to nothing, anything else by structure\<close>
  "py_eq a b =
     (case (num_of a, num_of b) of (Some x, Some y) \<Rightarrow> x = y | _ \<Rightarrow> a = b \<and> a \<noteq> PNaN)"

definition truthy :: "pyval \<Rightarrow> bool" where
  \<comment> \<open>Python's truth value, as \<^verbatim>\<open>not x\<close> reads it\<close>
  "truthy v =
     (case v of PNone \<Rightarrow> False | PNaN \<Rightarrow> True | PBool b \<Rightarrow> b | PNum x \<Rightarrow> x \<noteq> 0
      | PStr s \<Rightarrow> s \<noteq> [] | PList xs \<Rightarrow> xs \<noteq> [] | PDict kvs \<Rightarrow> kvs \<noteq> [])"

definition py_iter :: "pyval \<Rightarrow> pyval list option" where
  \<comment> \<open>what \<^verbatim>\<open>list.extend(x)\<close> appends: the items of a list, the keys of a dict, the
      characters of a string; \<open>None\<close> is the TypeError of a value that is not iterable\<close>
  "py_iter v =
     (case v of PList xs \<Rightarrow> Some xs
      | PDict kvs \<Rightarrow> Some (map (\<lambda>kv. PStr (fst kv)) kvs)
      | PStr s \<Rightarrow> Some (map (\<lambda>ch. PStr [ch]) s)
      | _ \<Rightarrow> None)"

definition set_column :: "string \<Rightarrow> pyval list \<Rightarrow> dataframe \<Rightarrow> dataframe" where
  \<comment> \<open>\<^verbatim>\<open>df[c] = values\<close>, one value per row: a new label goes last\<close>
  "set_column c vs df =
     \<lparr>columns = (if c \<in> set (columns df) then columns df else columns df @ [c]),
      rows = map (\<lambda>(r, v). row_set c v r) (zip (rows df) vs)\<rparr>"

definition set_scalar :: "string \<Rightarrow> pyval \<Rightarrow> dataframe \<Rightarrow> dataframe" where
  \<comment> \<open>\<^verbatim>\<open>df[c] = v\<close> for a scalar: every row gets the value\<close>
  "set_scalar c v df = set_column c (replicate (length (rows df)) v) df"

definition drop_column :: "string \<Rightarrow> dataframe \<Rightarrow> dataframe" where
  \<comment> \<open>\<^verbatim>\<open>df.drop(columns=[c])\<close> for a label the frame has\<close>
  "drop_column c df =
     \<lparr>columns = filter (\<lambda>k. k \<noteq> c) (columns df),
      rows = map (filter (\<lambda>kv. fst kv \<noteq> c)) (rows df)\<rparr>"

definition filter_rows :: "(series \<Rightarrow> bool) \<Rightarrow> dataframe \<Rightarrow> dataframe" where
  \<comment> \<open>\<^verbatim>\<open>df[mask]\<close>: the rows the mask keeps, in order\<close>
  "filter_rows keep df = \<lparr>columns = columns df, rows = filter keep (rows df)\<rparr>"

definition df_empty :: "dataframe \<Rightarrow> bool" where
  \<comment> \<open>\<^verbatim>\<open>df.empty\<close>: no rows or no columns\<close>
  "df_empty df = (rows df = [] \<or> columns df = [])"

definition unique_labels :: "string list \<Rightarrow> string list" where
  \<comment> \<open>the labels in order of first appearance\<close>
  "unique_labels cs = rev (remdups (rev cs))"

definition reindex :: "string list \<Rightarrow> series \<Rightarrow> series" where
  \<comment> \<open>a row aligned to the labels \<open>cs\<close>: a label it does not carry is NaN\<close>
  "reindex cs r = map (\<lambda>c. (c, cell r c)) cs"

section \<open>The alert classifier (lines 21 to 53)\<close>

abbreviation URGENT :: string where
  "URGENT \<equiv> ''URGENT: Critically Low Stock!''"

abbreviation WARNING :: string where
  "WARNING \<equiv> ''Warning: Stock is Low''"

abbreviation STOCK_OK :: string where
  "STOCK_OK \<equiv> ''Stock OK''"

definition or_zero :: "pyval \<Rightarrow> pyval" where
  \<comment> \<open>\<^verbatim>\<open>x if pd.notna(x) else 0\<close>\<close>
  "or_zero v = (if notna v then v else PNum 0)"

definition alert_logic :: "series \<Rightarrow> error + string" where
  "alert_logic row =
     (case getitem row ''quantity'' of Inl e \<Rightarrow> Inl e | Inr q \<Rightarrow>
      case getitem row ''par_level'' of Inl e \<Rightarrow> Inl e | Inr p \<Rightarrow>
      case getitem row ''critical_level'' of Inl e \<Rightarrow> Inl e | Inr c \<Rightarrow>
        (let quantity = or_zero q; par_level = or_zero p; critical_level = or_zero c in
         case py_le quantity critical_level of Inl e \<Rightarrow> Inl e
         | Inr True \<Rightarrow> Inr URGENT
         | Inr False \<Rightarrow>
             (case py_lt quantity par_level of Inl e \<Rightarrow> Inl e
              | Inr True \<Rightarrow> Inr WARNING
              | Inr False \<Rightarrow> Inr STOCK_OK)))"

definition required_cols :: "string list" where
  "required_cols = [''quantity'', ''par_level'', ''critical_level'']"

definition fillna_in :: "string list \<Rightarrow> series \<Rightarrow> series" where
  \<comment> \<open>\<^verbatim>\<open>fillna({c: 0, ...})\<close> on one row: a missing cell under one of the labels becomes 0\<close>
  "fillna_in cs r = map (\<lambda>(c, v). (c, if c \<in> set cs \<and> \<not> notna v then PNum 0 else v)) r"

fun apply_rows :: "(series \<Rightarrow> error + 'a) \<Rightarrow> series list \<Rightarrow> error + 'a list" where
  \<comment> \<open>\<^verbatim>\<open>df.apply(f, axis=1)\<close>: the rows in order, the first exception ends it\<close>
  "apply_rows f [] = Inr []"
| "apply_rows f (r # rs) =
     (case f r of Inl e \<Rightarrow> Inl e
      | Inr a \<Rightarrow> (case apply_rows f rs of Inl e \<Rightarrow> Inl e | Inr as \<Rightarrow> Inr (a # as)))"

definition generate_inventory_alerts :: "dataframe \<Rightarrow> error + dataframe" where
  "generate_inventory_alerts df =
     (if \<not> set required_cols \<subseteq> set (columns df) then Inl ValueError
      else
        (let filled = map (fillna_in required_cols) (rows df) in
         case apply_rows alert_logic filled of Inl e \<Rightarrow> Inl e
         | Inr alerts \<Rightarrow>
             Inr (set_column ''alert'' (map PStr alerts) \<lparr>columns = columns df, rows = filled\<rparr>)))"


section \<open>The record fetcher (lines 131 to 210)\<close>

text \<open>
  One page request (lines 157 to 160): \<^verbatim>\<open>requests.get\<close> raises a \<^verbatim>\<open>RequestException\<close>
  or returns a response with a status code and a body; \<^verbatim>\<open>raise_for_status\<close> raises an
  \<^verbatim>\<open>HTTPError\<close> for a status from 400 to 599 and for no other; \<^verbatim>\<open>response.json()\<close>
  raises a \<^verbatim>\<open>JSONDecodeError\<close> for a malformed body and returns the parsed value
  otherwise. The remote API is a function from the page number to that outcome.
\<close>

datatype body = Malformed | Parsed pyval

datatype response = RequestException | Response nat body

datatype step = Break "pyval list" | Next "pyval list"

definition raise_for_status :: "nat \<Rightarrow> bool" where
  \<comment> \<open>whether \<^verbatim>\<open>raise_for_status\<close> raises on this status code\<close>
  "raise_for_status status = (400 \<le> status \<and> status < 600)"

definition fetch_page :: "nat \<Rightarrow> response \<Rightarrow> pyval list \<Rightarrow> step" where
  \<comment> \<open>the body of the \<^verbatim>\<open>while True\<close> loop (lines 150 to 188) on one response. Every
      \<^verbatim>\<open>except\<close> branch logs and breaks. A parsed body that is not an object either has
      no \<^verbatim>\<open>'data'\<close> member or raises TypeError at \<^verbatim>\<open>data['data']\<close>, which the last
      \<^verbatim>\<open>except Exception\<close> catches; so does \<^verbatim>\<open>extend\<close> on a value that is not iterable.\<close>
  "fetch_page per_page resp all_data =
     (case resp of
        RequestException \<Rightarrow> Break all_data
      | Response status content \<Rightarrow>
          if raise_for_status status then Break all_data
          else
            (case content of
               Malformed \<Rightarrow> Break all_data
             | Parsed (PDict kvs) \<Rightarrow>
                 (case map_of kvs ''data'' of
                    None \<Rightarrow> Break all_data
                  | Some d \<Rightarrow>
                      if \<not> truthy d then Break all_data
                      else (case py_iter d of
                              None \<Rightarrow> Break all_data
                            | Some items \<Rightarrow>
                                if length items < per_page then Break (all_data @ items)
                                else Next (all_data @ items)))
             | Parsed _ \<Rightarrow> Break all_data))"

partial_function (option) fetch_loop ::
  "(nat \<Rightarrow> response) \<Rightarrow> nat \<Rightarrow> nat \<Rightarrow> pyval list \<Rightarrow> pyval list option" where
  "fetch_loop api per_page page all_data =
     (case fetch_page per_page (api page) all_data of
        Break acc \<Rightarrow> Some acc
      | Next acc \<Rightarrow> fetch_loop api per_page (page + 1) acc)"

declare fetch_loop.simps [code]

text \<open>
  \<^verbatim>\<open>pd.json_normalize\<close> with its default arguments flattens nested objects into dotted
  labels (\<^verbatim>\<open>store.title\<close>) and leaves lists as cells. Members that are not objects come
  first, then the flattened objects; an assignment to a label already present replaces
  its value in place.
\<close>

fun normalise_json :: "string \<Rightarrow> pyval \<Rightarrow> (string \<times> pyval) list"
  and normalise_items :: "string \<Rightarrow> (string \<times> pyval) list \<Rightarrow> (string \<times> pyval) list" where
  "normalise_json key_string (PDict kvs) = normalise_items key_string kvs"
| "normalise_json key_string PNone = [(key_string, PNone)]"
| "normalise_json key_string PNaN = [(key_string, PNaN)]"
| "normalise_json key_string (PBool b) = [(key_string, PBool b)]"
| "normalise_json key_string (PNum x) = [(key_string, PNum x)]"
| "normalise_json key_string (PStr s) = [(key_string, PStr s)]"
| "normalise_json key_string (PList xs) = [(key_string, PList xs)]"
| "normalise_items key_string [] = []"
| "normalise_items key_string ((k, v) # kvs) =
     normalise_json (if key_string = [] then k else key_string @ ''.'' @ k) v
     @ normalise_items key_string kvs"

definition is_dict :: "pyval \<Rightarrow> bool" where
  "is_dict v = (case v of PDict _ \<Rightarrow> True | _ \<Rightarrow> False)"

definition normalise_json_ordered :: "(string \<times> pyval) list \<Rightarrow> series" where
  "normalise_json_ordered data =
     (let top_dict = filter (\<lambda>kv. \<not> is_dict (snd kv)) data;
          nested_dict = normalise_items [] (filter (\<lambda>kv. is_dict (snd kv)) data)
      in foldl (\<lambda>d kv. row_set (fst kv) (snd kv) d) [] (top_dict @ nested_dict))"

definition simple_json_normalize :: "pyval \<Rightarrow> series" where
  \<comment> \<open>one record of a list: an object is flattened, a scalar gives a record with no
      members. A record that is itself a list is outside the model and read the same way.\<close>
  "simple_json_normalize v = (case v of PDict kvs \<Rightarrow> normalise_json_ordered kvs | _ \<Rightarrow> [])"

definition frame_of_dicts :: "series list \<Rightarrow> dataframe" where
  \<comment> \<open>\<^verbatim>\<open>DataFrame(list of dicts)\<close>: the labels in order of first appearance, a member a
      record lacks is NaN\<close>
  "frame_of_dicts ds =
     (let cols = unique_labels (concat (map (map fst) ds))
      in \<lparr>columns = cols, rows = map (reindex cols) ds\<rparr>)"

definition json_normalize_list :: "pyval list \<Rightarrow> dataframe" where
  \<comment> \<open>\<^verbatim>\<open>pd.json_normalize(data)\<close> for a list\<close>
  "json_normalize_list data = frame_of_dicts (map simple_json_normalize data)"

definition json_normalize :: "pyval \<Rightarrow> error + dataframe" where
  \<comment> \<open>\<^verbatim>\<open>pd.json_normalize(data)\<close>: an object is one record, a list is its records, anything
      else raises NotImplementedError\<close>
  "json_normalize data =
     (case data of
        PDict kvs \<Rightarrow> Inr (frame_of_dicts [normalise_json_ordered kvs])
      | PList xs \<Rightarrow> Inr (json_normalize_list xs)
      | _ \<Rightarrow> Inl NotImplementedError)"

definition index_column :: "dataframe \<Rightarrow> pyval list" where
  \<comment> \<open>\<^verbatim>\<open>df.index\<close> after \<^verbatim>\<open>reset_index(drop=True)\<close>: the positions 0, 1, ...\<close>
  "index_column df = map (\<lambda>i. PNum (real i)) [0..<length (rows df)]"

definition to_dataframe :: "pyval list \<Rightarrow> dataframe" where
  \<comment> \<open>lines 205 and 206\<close>
  "to_dataframe all_data =
     (let inventory_df = json_normalize_list all_data
      in set_column ''unique_id'' (index_column inventory_df) inventory_df)"

definition per_page :: nat where
  "per_page = 25"

definition get_inventory_data :: "(nat \<Rightarrow> response) \<Rightarrow> (error + dataframe) option" where
  \<comment> \<open>\<open>None\<close>: the loop never ends (every page is full). \<^verbatim>\<open>exit()\<close> when nothing was
      fetched. Writing the JSON snapshot is an effect outside the model.\<close>
  "get_inventory_data api =
     (case fetch_loop api per_page 1 [] of
        None \<Rightarrow> None
      | Some all_data \<Rightarrow>
          Some (if all_data = [] then Inl SystemExit else Inr (to_dataframe all_data)))"

section \<open>The flattener (lines 212 to 257)\<close>

definition ensure_list :: "pyval \<Rightarrow> pyval" where
  \<comment> \<open>\<^verbatim>\<open>lambda x: x if isinstance(x, list) else []\<close>\<close>
  "ensure_list x = (case x of PList xs \<Rightarrow> PList xs | _ \<Rightarrow> PList [])"

definition list_items :: "pyval \<Rightarrow> pyval list" where
  \<comment> \<open>the items the inner \<^verbatim>\<open>for\<close> visits; the cell is a list by then\<close>
  "list_items x = (case x of PList xs \<Rightarrow> xs | _ \<Rightarrow> [])"

fun explode_row :: "nat \<Rightarrow> pyval list \<Rightarrow> error + dataframe list" where
  \<comment> \<open>the inner loop (lines 219 to 222) for the parent at index \<open>idx\<close>\<close>
  "explode_row idx [] = Inr []"
| "explode_row idx (inv_item # invs) =
     (case json_normalize inv_item of Inl e \<Rightarrow> Inl e
      | Inr inv_flat \<Rightarrow>
          (case explode_row idx invs of Inl e \<Rightarrow> Inl e
           | Inr rest \<Rightarrow> Inr (set_scalar ''unique_id'' (PNum (real idx)) inv_flat # rest)))"

fun iterrows :: "nat \<Rightarrow> series list \<Rightarrow> error + dataframe list" where
  \<comment> \<open>the outer loop (line 218) from index \<open>idx\<close> on\<close>
  "iterrows idx [] = Inr []"
| "iterrows idx (row # later) =
     (case explode_row idx (list_items (cell row ''inventories'')) of Inl e \<Rightarrow> Inl e
      | Inr fs \<Rightarrow>
          (case iterrows (Suc idx) later of Inl e \<Rightarrow> Inl e | Inr gs \<Rightarrow> Inr (fs @ gs)))"

definition concat_frames :: "dataframe list \<Rightarrow> dataframe" where
  \<comment> \<open>\<^verbatim>\<open>pd.concat(frames, ignore_index=True)\<close>: the union of the labels, the rows stacked\<close>
  "concat_frames fs =
     (let cols = unique_labels (concat (map columns fs))
      in \<lparr>columns = cols, rows = concat (map (\<lambda>f. map (reindex cols) (rows f)) fs)\<rparr>)"

text \<open>
  \<^verbatim>\<open>pd.merge(left, right, on=key, how="left")\<close>: every left row, once per right row with
  the same key and once with NaN cells when there is none, in left order; a label other
  than the key that both frames carry gets the suffixes \<^verbatim>\<open>_x\<close> and \<^verbatim>\<open>_y\<close>. In the
  pipeline both key columns hold the parent's position.
\<close>

definition left_label :: "string \<Rightarrow> dataframe \<Rightarrow> string \<Rightarrow> string" where
  "left_label key right c = (if c \<noteq> key \<and> c \<in> set (columns right) then c @ ''_x'' else c)"

definition right_label :: "dataframe \<Rightarrow> string \<Rightarrow> string" where
  "right_label left c = (if c \<in> set (columns left) then c @ ''_y'' else c)"

definition join_rows :: "string \<Rightarrow> dataframe \<Rightarrow> dataframe \<Rightarrow> series \<Rightarrow> series \<Rightarrow> series" where
  \<comment> \<open>a left row beside a right row; the empty right row gives NaN cells\<close>
  "join_rows key left right l r =
     map (\<lambda>c. (left_label key right c, cell l c)) (columns left)
     @ map (\<lambda>c. (right_label left c, cell r c)) (filter (\<lambda>c. c \<noteq> key) (columns right))"

definition matches :: "string \<Rightarrow> dataframe \<Rightarrow> series \<Rightarrow> series list" where
  \<comment> \<open>the right rows with the key of the left row \<open>l\<close>\<close>
  "matches key right l = filter (\<lambda>r. cell r key = cell l key) (rows right)"

definition merge_left :: "string \<Rightarrow> dataframe \<Rightarrow> dataframe \<Rightarrow> error + dataframe" where
  "merge_left key left right =
     (if key \<notin> set (columns left) \<or> key \<notin> set (columns right) then Inl (KeyError [key])
      else
        Inr \<lparr>columns = map (left_label key right) (columns left)
                        @ map (right_label left) (filter (\<lambda>c. c \<noteq> key) (columns right)),
             rows = concat (map (\<lambda>l. if matches key right l = []
                                      then [join_rows key left right l []]
                                      else map (join_rows key left right l) (matches key right l))
                              (rows left))\<rparr>)"

definition columnstokeep :: "string list" where
  "columnstokeep =
     [''store.title'', ''store.cycle_count_system_value'', ''store.cycle_count_system_type'',
      ''title'', ''type'', ''model'', ''manufacturer'', ''asset_model'', ''unit_measurement'',
      ''internal_reference'', ''archive'', ''price'', ''unique_id'', ''quantity'', ''par_level'',
      ''critical_level'']"

definition numeric_cols :: "string list" where
  "numeric_cols = [''quantity'', ''par_level'', ''critical_level'']"

definition project :: "string list \<Rightarrow> dataframe \<Rightarrow> dataframe" where
  \<comment> \<open>\<^verbatim>\<open>df.loc[:, df.columns.intersection(keep)]\<close>\<close>
  "project keep df =
     \<lparr>columns = filter (\<lambda>c. c \<in> set keep) (columns df),
      rows = map (filter (\<lambda>kv. fst kv \<in> set keep)) (rows df)\<rparr>"

definition column_values :: "string \<Rightarrow> dataframe \<Rightarrow> pyval list" where
  \<comment> \<open>\<^verbatim>\<open>df[c]\<close> for a label the frame has: the cells of the column, row by row\<close>
  "column_values c df = map (\<lambda>r. cell r c) (rows df)"

definition is_bool :: "pyval \<Rightarrow> bool" where
  "is_bool v = (case v of PBool _ \<Rightarrow> True | _ \<Rightarrow> False)"

definition coerce_value :: "(string \<Rightarrow> real option) \<Rightarrow> pyval \<Rightarrow> pyval" where
  \<comment> \<open>one item of a column that is converted item by item: a number stays, a boolean is 1
      or 0, a string is parsed by pandas' number parser \<open>parse\<close>, whatever does not convert
      is NaN\<close>
  "coerce_value parse v =
     (case v of
        PNum x \<Rightarrow> PNum x
      | PBool b \<Rightarrow> PNum (if b then 1 else 0)
      | PStr s \<Rightarrow> (case parse s of Some x \<Rightarrow> PNum x | None \<Rightarrow> PNaN)
      | _ \<Rightarrow> PNaN)"

definition to_numeric :: "(string \<Rightarrow> real option) \<Rightarrow> pyval list \<Rightarrow> pyval list" where
  \<comment> \<open>\<^verbatim>\<open>pd.to_numeric(column, errors="coerce")\<close>: a column whose cells are all booleans
      comes back as it is, \<^verbatim>\<open>True\<close> and \<^verbatim>\<open>False\<close> (\<^verbatim>\<open>bool\<close> is a numeric dtype, and an object
      column of booleans converts to booleans); any other column is converted item by
      item\<close>
  "to_numeric parse vs = (if list_all is_bool vs then vs else map (coerce_value parse) vs)"

definition fillna0 :: "pyval \<Rightarrow> pyval" where
  \<comment> \<open>\<^verbatim>\<open>fillna(0)\<close> on one cell\<close>
  "fillna0 v = (if notna v then v else PNum 0)"

definition coerce_column :: "(string \<Rightarrow> real option) \<Rightarrow> string \<Rightarrow> dataframe \<Rightarrow> dataframe" where
  \<comment> \<open>lines 252 and 253 for one label: the column, converted and filled, is assigned back\<close>
  "coerce_column parse col df =
     (if col \<in> set (columns df)
      then set_column col (map fillna0 (to_numeric parse (column_values col df))) df
      else df)"

definition fillna_all :: "dataframe \<Rightarrow> dataframe" where
  \<comment> \<open>\<^verbatim>\<open>df.fillna(0, inplace=True)\<close>\<close>
  "fillna_all df = \<lparr>columns = columns df, rows = map (map (\<lambda>(c, v). (c, fillna0 v))) (rows df)\<rparr>"

definition map_column :: "string \<Rightarrow> (pyval \<Rightarrow> pyval) \<Rightarrow> dataframe \<Rightarrow> dataframe" where
  \<comment> \<open>\<^verbatim>\<open>df[c] = df[c].apply(f)\<close> for a label the frame has\<close>
  "map_column c f df =
     \<lparr>columns = columns df,
      rows = map (map (\<lambda>(k, v). (k, if k = c then f v else v))) (rows df)\<rparr>"

definition process_merged :: "(string \<Rightarrow> real option) \<Rightarrow> dataframe \<Rightarrow> dataframe" where
  \<comment> \<open>lines 239 to 256: projection, numeric coercion and the final \<^verbatim>\<open>fillna(0)\<close>, skipped
      for an empty frame\<close>
  "process_merged parse merged_data =
     (if \<not> df_empty merged_data
      then fillna_all (foldl (\<lambda>df col. coerce_column parse col df)
                         (project columnstokeep merged_data) numeric_cols)
      else merged_data)"

definition merge_inventories :: "dataframe \<Rightarrow> error + dataframe" where
  \<comment> \<open>lines 213 to 236: \<^verbatim>\<open>merged_data\<close> as it stands before line 239\<close>
  "merge_inventories inventory_df0 =
     (if ''inventories'' \<notin> set (columns inventory_df0) then Inl (KeyError [''inventories''])
      else
        (let inventory_df = map_column ''inventories'' ensure_list inventory_df0 in
         case iterrows 0 (rows inventory_df) of Inl e \<Rightarrow> Inl e
         | Inr flattened_inventories \<Rightarrow>
             (let inventories_df =
                    (if flattened_inventories \<noteq> [] then concat_frames flattened_inventories
                     else \<lparr>columns = [], rows = []\<rparr>)
              in if \<not> df_empty inventories_df
                 then merge_left ''unique_id'' (drop_column ''inventories'' inventory_df)
                        inventories_df
                 else Inr (drop_column ''inventories'' inventory_df))))"

definition flatten_process_inventory_data ::
  "(string \<Rightarrow> real option) \<Rightarrow> dataframe \<Rightarrow> error + dataframe" where
  "flatten_process_inventory_data parse inventory_df =
     (case merge_inventories inventory_df of
        Inl e \<Rightarrow> Inl e
      | Inr merged_data \<Rightarrow> Inr (process_merged parse merged_data))"

section \<open>The report builder (lines 55 to 128)\<close>

definition rename_table :: "(string \<times> string) list" where
  "rename_table =
     [(''store.title'', ''Site''), (''title'', ''Part Name''), (''type'', ''Type''),
      (''model'', ''Model''), (''internal_reference'', ''Internal Reference''),
      (''price'', ''Price''), (''quantity'', ''Quantity''), (''par_level'', ''Par Level''),
      (''critical_level'', ''Critical Level''), (''alert'', ''Alert'')]"

definition report_columns :: "string list" where
  "report_columns =
     [''Site'', ''Part Name'', ''Type'', ''Model'', ''Internal Reference'', ''Price'', ''Quantity'',
      ''Par Level'', ''Critical Level'', ''Alert'']"

definition rename_label :: "string \<Rightarrow> string" where
  "rename_label c = (case map_of rename_table c of None \<Rightarrow> c | Some c' \<Rightarrow> c')"

definition rename_columns :: "dataframe \<Rightarrow> dataframe" where
  \<comment> \<open>\<^verbatim>\<open>df.rename(columns={...})\<close>: a label the table lacks stays\<close>
  "rename_columns df =
     \<lparr>columns = map rename_label (columns df),
      rows = map (map (\<lambda>(c, v). (rename_label c, v))) (rows df)\<rparr>"

definition select_columns :: "string list \<Rightarrow> dataframe \<Rightarrow> error + dataframe" where
  \<comment> \<open>\<^verbatim>\<open>df[[c, ...]]\<close>: KeyError names the labels the frame lacks\<close>
  "select_columns cs df =
     (let missing = filter (\<lambda>c. c \<notin> set (columns df)) cs
      in if missing \<noteq> [] then Inl (KeyError missing)
         else Inr \<lparr>columns = cs, rows = map (reindex cs) (rows df)\<rparr>)"

definition where_eq :: "string \<Rightarrow> pyval \<Rightarrow> dataframe \<Rightarrow> error + dataframe" where
  \<comment> \<open>\<^verbatim>\<open>df[df[c] == v]\<close>\<close>
  "where_eq c v df =
     (if c \<notin> set (columns df) then Inl (KeyError [c])
      else Inr (filter_rows (\<lambda>r. py_eq (cell r c) v) df))"

definition where_ne :: "string \<Rightarrow> pyval \<Rightarrow> dataframe \<Rightarrow> error + dataframe" where
  \<comment> \<open>\<^verbatim>\<open>df[df[c] != v]\<close>\<close>
  "where_ne c v df =
     (if c \<notin> set (columns df) then Inl (KeyError [c])
      else Inr (filter_rows (\<lambda>r. \<not> py_eq (cell r c) v) df))"

text \<open>
  \<^verbatim>\<open>sort_values(by=["Quantity", "Alert"], ascending=[True, False])\<close> is a stable sort on
  two keys, missing values last on either key. The model reads the Quantity key as a
  number and the Alert key as a string, which is what the pipeline puts there; any other
  cell is ordered as a missing one.
\<close>

definition quantity_key :: "series \<Rightarrow> real option" where
  "quantity_key r = num_of (cell r ''Quantity'')"

definition alert_key :: "series \<Rightarrow> string option" where
  "alert_key r = (case cell r ''Alert'' of PStr s \<Rightarrow> Some s | _ \<Rightarrow> None)"

definition before_asc :: "real option \<Rightarrow> real option \<Rightarrow> bool" where
  \<comment> \<open>strictly earlier on an ascending key, missing last\<close>
  "before_asc a b =
     (case (a, b) of (Some x, Some y) \<Rightarrow> x < y | (Some _, None) \<Rightarrow> True | _ \<Rightarrow> False)"

definition upto_desc :: "string option \<Rightarrow> string option \<Rightarrow> bool" where
  \<comment> \<open>not later on a descending key, missing last\<close>
  "upto_desc a b =
     (case (a, b) of (Some s, Some t) \<Rightarrow> t \<le> s | (_, None) \<Rightarrow> True | (None, Some _) \<Rightarrow> False)"

definition report_le :: "series \<Rightarrow> series \<Rightarrow> bool" where
  \<comment> \<open>the row \<open>r1\<close> is not after \<open>r2\<close> in the report's order\<close>
  "report_le r1 r2 =
     (before_asc (quantity_key r1) (quantity_key r2)
      \<or> (quantity_key r1 = quantity_key r2 \<and> upto_desc (alert_key r1) (alert_key r2)))"

fun insort_by :: "('a \<Rightarrow> 'a \<Rightarrow> bool) \<Rightarrow> 'a \<Rightarrow> 'a list \<Rightarrow> 'a list" where
  "insort_by le x [] = [x]"
| "insort_by le x (y # ys) = (if le x y then x # y # ys else y # insort_by le x ys)"

definition sort_by :: "('a \<Rightarrow> 'a \<Rightarrow> bool) \<Rightarrow> 'a list \<Rightarrow> 'a list" where
  \<comment> \<open>a stable sort: equal rows keep their order\<close>
  "sort_by le xs = foldr (insort_by le) xs []"

definition sort_values :: "dataframe \<Rightarrow> dataframe" where
  "sort_values df = \<lparr>columns = columns df, rows = sort_by report_le (rows df)\<rparr>"

definition prepare_report :: "dataframe \<Rightarrow> error + dataframe" where
  \<comment> \<open>lines 62 to 71: the site filter, the renaming, the fixed column order\<close>
  "prepare_report filtered_df =
     (case where_eq ''store.title'' (PStr ''Sheffield Parts Co. - TERP'') filtered_df of
        Inl e \<Rightarrow> Inl e
      | Inr df \<Rightarrow> select_columns report_columns (rename_columns df))"

definition send_email_notification :: "dataframe \<Rightarrow> error + dataframe option" where
  \<comment> \<open>The result is the report that is mailed, \<open>None\<close> when there is nothing to send.
      Writing the CSV and the SMTP session are effects outside the model.\<close>
  "send_email_notification filtered_df =
     (case prepare_report filtered_df of
        Inl e \<Rightarrow> Inl e
      | Inr df \<Rightarrow>
          (let sorted = sort_values df
           in if df_empty sorted then Inr None else Inr (Some sorted)))"

section \<open>The pipeline (lines 259 to 285)\<close>

definition pre_filter :: "dataframe \<Rightarrow> error + dataframe" where
  \<comment> \<open>lines 264 to 266\<close>
  "pre_filter merged_data =
     (case where_ne ''type'' (PStr ''Procurement Pending'') merged_data of Inl e \<Rightarrow> Inl e
      | Inr d1 \<Rightarrow>
          (case where_ne ''par_level'' (PNum 0) d1 of Inl e \<Rightarrow> Inl e
           | Inr d2 \<Rightarrow> where_ne ''critical_level'' (PNum 0) d2))"

definition alert_filter :: "series \<Rightarrow> bool" where
  \<comment> \<open>\<^verbatim>\<open>isin(["URGENT: Critically Low Stock!", "Warning: Stock is Low"])\<close>\<close>
  "alert_filter r = (cell r ''alert'' = PStr URGENT \<or> cell r ''alert'' = PStr WARNING)"

definition report_alerts :: "dataframe \<Rightarrow> error + dataframe option" where
  \<comment> \<open>lines 267 to 285, from the frame handed to the classifier\<close>
  "report_alerts classifier_input =
     (case generate_inventory_alerts classifier_input of Inl e \<Rightarrow> Inl e
      | Inr alerts_df \<Rightarrow>
          (let filtered_alerts = filter_rows alert_filter alerts_df
           in if \<not> df_empty filtered_alerts
              then (if ''store.title'' \<notin> set (columns filtered_alerts)
                    then Inl (KeyError [''store.title''])
                    else send_email_notification filtered_alerts)
              else Inr None))"

definition main_from :: "(string \<Rightarrow> real option) \<Rightarrow> dataframe \<Rightarrow> error + dataframe option" where
  \<comment> \<open>\<^verbatim>\<open>main\<close> from line 262 on, given the frame of \<^verbatim>\<open>get_inventory_data\<close>\<close>
  "main_from parse inventory_data =
     (case flatten_process_inventory_data parse inventory_data of Inl e \<Rightarrow> Inl e
      | Inr merged_data \<Rightarrow>
          (case pre_filter merged_data of Inl e \<Rightarrow> Inl e
           | Inr classifier_input \<Rightarrow> report_alerts classifier_input))"

definition main :: "(string \<Rightarrow> real option) \<Rightarrow> (nat \<Rightarrow> response) \<Rightarrow> (error + dataframe option) option" where
  "main parse api =
     (case get_inventory_data api of
        None \<Rightarrow> None
      | Some (Inl e) \<Rightarrow> Some (Inl e)
      | Some (Inr inventory_data) \<Rightarrow> Some (main_from parse inventory_data))"

section \<open>Vocabulary of the statements\<close>

text \<open>
  The conditions under which the fetch loop stops. A request fails when it raises a
  transport error, when its status is from 400 to 599, or when its body is not JSON; such
  a page gives no records. A page that did not fail has no data when its body is no
  object with a \<^verbatim>\<open>data\<close> member, or when that member is falsy (an empty list, null, 0, an
  empty string) or cannot be iterated. Otherwise its records are the items of the member,
  and the page is short when they are fewer than the page size.
\<close>

definition request_failed :: "response \<Rightarrow> bool" where
  "request_failed r =
     (case r of RequestException \<Rightarrow> True
      | Response status content \<Rightarrow> raise_for_status status \<or> content = Malformed)"

definition data_field :: "response \<Rightarrow> pyval option" where
  "data_field r =
     (case r of Response status (Parsed (PDict kvs)) \<Rightarrow> map_of kvs ''data'' | _ \<Rightarrow> None)"

definition page_items :: "response \<Rightarrow> pyval list option" where
  \<comment> \<open>the records of a page that has some\<close>
  "page_items r =
     (if request_failed r then None
      else (case data_field r of None \<Rightarrow> None
            | Some d \<Rightarrow> if truthy d then py_iter d else None))"

definition page_records :: "response \<Rightarrow> pyval list" where
  "page_records r = (case page_items r of None \<Rightarrow> [] | Some items \<Rightarrow> items)"

definition no_data :: "response \<Rightarrow> bool" where
  "no_data r = (\<not> request_failed r \<and> page_items r = None)"

definition short_page :: "nat \<Rightarrow> response \<Rightarrow> bool" where
  "short_page n r = (case page_items r of None \<Rightarrow> False | Some items \<Rightarrow> length items < n)"

definition stop_condition :: "nat \<Rightarrow> response \<Rightarrow> bool" where
  "stop_condition n r = (request_failed r \<or> no_data r \<or> short_page n r)"

text \<open>
  The stop conditions as the specification lists them: no \<^verbatim>\<open>data\<close> member or an empty
  \<^verbatim>\<open>data\<close> list, a \<^verbatim>\<open>data\<close> list shorter than the page size, a transport error, a
  status outside 200 to 299, malformed JSON.
\<close>

definition listed_stop :: "nat \<Rightarrow> response \<Rightarrow> bool" where
  "listed_stop n r =
     (case r of
        RequestException \<Rightarrow> True
      | Response status Malformed \<Rightarrow> True
      | Response status (Parsed v) \<Rightarrow>
          \<not> (200 \<le> status \<and> status < 300)
          \<or> (case v of
                PDict kvs \<Rightarrow>
                  (case map_of kvs ''data'' of
                     None \<Rightarrow> True
                   | Some (PList xs) \<Rightarrow> xs = [] \<or> length xs < n
                   | Some _ \<Rightarrow> False)
              | _ \<Rightarrow> True))"

definition two_pages :: "nat \<Rightarrow> response" where
  \<comment> \<open>a full page of two records, a last page of one, then nothing but failures\<close>
  "two_pages p =
     (if p = 1 then Response 200 (Parsed (PDict [(''data'', PList [PStr ''a'', PStr ''b''])]))
      else if p = 2 then Response 200 (Parsed (PDict [(''data'', PList [PStr ''c''])]))
      else Response 503 Malformed)"

definition data_is_number :: "nat \<Rightarrow> response" where
  \<comment> \<open>every page answers 200 with the body \<^verbatim>\<open>{"data": 5}\<close>\<close>
  "data_is_number p = Response 200 (Parsed (PDict [(''data'', PNum 5)]))"

definition status_300_first :: "nat \<Rightarrow> response" where
  \<comment> \<open>page 1 answers 300 with a full page of two records, every later page 200 with an
      empty list\<close>
  "status_300_first p =
     (if p = 1 then Response 300 (Parsed (PDict [(''data'', PList [PStr ''a'', PStr ''b''])]))
      else Response 200 (Parsed (PDict [(''data'', PList [])])))"

text \<open>
  A frame of two alerted rows of the reported site with the same quantity, the URGENT
  row first, and the labels of the report built from a frame.
\<close>

definition scenario_d :: dataframe where
  "scenario_d =
     \<lparr>columns = [''store.title'', ''title'', ''type'', ''model'', ''internal_reference'', ''price'',
                  ''quantity'', ''par_level'', ''critical_level'', ''alert''],
      rows =
        [[(''store.title'', PStr ''Sheffield Parts Co. - TERP''), (''title'', PStr ''Bolt''),
          (''type'', PStr ''Part''), (''model'', PStr ''M8''), (''internal_reference'', PStr ''B-8''),
          (''price'', PNum 2), (''quantity'', PNum 3), (''par_level'', PNum 10),
          (''critical_level'', PNum 5), (''alert'', PStr URGENT)],
         [(''store.title'', PStr ''Sheffield Parts Co. - TERP''), (''title'', PStr ''Nut''),
          (''type'', PStr ''Part''), (''model'', PStr ''M8''), (''internal_reference'', PStr ''N-8''),
          (''price'', PNum 1), (''quantity'', PNum 3), (''par_level'', PNum 10),
          (''critical_level'', PNum 1), (''alert'', PStr WARNING)]]\<rparr>"

definition report_of :: "dataframe \<Rightarrow> dataframe" where
  \<comment> \<open>the report mailed for a frame, the frame with no rows when none is\<close>
  "report_of df =
     (case send_email_notification df of
        Inr (Some rep) \<Rightarrow> rep
      | _ \<Rightarrow> \<lparr>columns = [], rows = []\<rparr>)"

definition alert_labels :: "dataframe \<Rightarrow> pyval list" where
  "alert_labels df = map (\<lambda>r. cell r ''Alert'') (rows df)"

definition part_names :: "dataframe \<Rightarrow> pyval list" where
  "part_names df = map (\<lambda>r. cell r ''Part Name'') (rows df)"

text \<open>
  A number parser for the examples: unsigned decimal integers. The parser of
  \<^verbatim>\<open>pd.to_numeric\<close> accepts more (signs, fractions, exponents, surrounding blanks); the
  statements below hold for every parser.
\<close>

definition digit_value :: "char \<Rightarrow> nat option" where
  "digit_value ch =
     (let n = (of_char ch :: nat) in if 48 \<le> n \<and> n \<le> 57 then Some (n - 48) else None)"

fun digits_value :: "nat \<Rightarrow> string \<Rightarrow> nat option" where
  "digits_value acc [] = Some acc"
| "digits_value acc (ch # s) =
     (case digit_value ch of None \<Rightarrow> None | Some d \<Rightarrow> digits_value (10 * acc + d) s)"

definition parse_digits :: "string \<Rightarrow> real option" where
  "parse_digits s = (if s = [] then None else map_option real (digits_value 0 s))"

text \<open>Records and frames of the examples.\<close>

definition parent_without_lines :: pyval where
  "parent_without_lines =
     PDict [(''title'', PStr ''Nut''), (''type'', PStr ''Part''), (''inventories'', PList [])]"

definition parent_without_field :: pyval where
  "parent_without_field = PDict [(''title'', PStr ''Bolt''), (''type'', PStr ''Part'')]"

definition parent_with_lines :: pyval where
  "parent_with_lines =
     PDict [(''title'', PStr ''Bolt''),
            (''inventories'',
             PList [PDict [(''quantity'', PStr ''N/A''), (''par_level'', PStr ''10''),
                           (''critical_level'', PNum 5)],
                    PDict [(''quantity'', PNum 8), (''par_level'', PNone)]])]"

definition line_count :: "series \<Rightarrow> nat" where
  \<comment> \<open>the number of inventory lines a parent row carries, none when the cell is no list\<close>
  "line_count r = length (list_items (ensure_list (cell r ''inventories'')))"

definition lines_are_objects :: "series \<Rightarrow> bool" where
  "lines_are_objects r = list_all is_dict (list_items (ensure_list (cell r ''inventories'')))"

definition indexed_by_position :: "dataframe \<Rightarrow> bool" where
  \<comment> \<open>the \<^verbatim>\<open>unique_id\<close> column holds the row positions, as line 206 leaves it\<close>
  "indexed_by_position df = (map (\<lambda>r. cell r ''unique_id'') (rows df) = index_column df)"

definition row_count :: "error + dataframe \<Rightarrow> nat option" where
  "row_count res = (case res of Inl _ \<Rightarrow> None | Inr df \<Rightarrow> Some (length (rows df)))"

definition thresholds_frame :: dataframe where
  "thresholds_frame =
     \<lparr>columns = [''type'', ''quantity'', ''par_level'', ''critical_level''],
      rows =
        [[(''type'', PStr ''Part''), (''quantity'', PNum 2), (''par_level'', PNum 10),
          (''critical_level'', PNum 5)],
         [(''type'', PStr ''Part''), (''quantity'', PNum 0), (''par_level'', PNum 0),
          (''critical_level'', PNum 5)],
         [(''type'', PStr ''Part''), (''quantity'', PNum 0), (''par_level'', PNum 10),
          (''critical_level'', PNum 0)],
         [(''type'', PStr ''Part''), (''quantity'', PNum 0), (''par_level'', PNum 0),
          (''critical_level'', PNum 0)],
         [(''type'', PStr ''Procurement Pending''), (''quantity'', PNum 2), (''par_level'', PNum 10),
          (''critical_level'', PNum 5)]]\<rparr>"

definition kept_frame :: dataframe where
  \<comment> \<open>what the filter of lines 264 to 266 leaves of \<open>thresholds_frame\<close>\<close>
  "kept_frame =
     \<lparr>columns = [''type'', ''quantity'', ''par_level'', ''critical_level''],
      rows =
        [[(''type'', PStr ''Part''), (''quantity'', PNum 2), (''par_level'', PNum 10),
          (''critical_level'', PNum 5)]]\<rparr>"

definition flattened_lines :: dataframe where
  \<comment> \<open>the normalized rows of \<open>parent_with_lines\<close>\<close>
  "flattened_lines =
     \<lparr>columns = [''title'', ''unique_id'', ''quantity'', ''par_level'', ''critical_level''],
      rows =
        [[(''title'', PStr ''Bolt''), (''unique_id'', PNum 0), (''quantity'', PNum 0),
          (''par_level'', PNum 10), (''critical_level'', PNum 5)],
         [(''title'', PStr ''Bolt''), (''unique_id'', PNum 0), (''quantity'', PNum 8),
          (''par_level'', PNum 0), (''critical_level'', PNum 0)]]\<rparr>"

definition frame_keys :: "dataframe \<Rightarrow> pyval list" where
  \<comment> \<open>the \<^verbatim>\<open>unique_id\<close> cells of a frame, row by row\<close>
  "frame_keys f = map (\<lambda>r. cell r ''unique_id'') (rows f)"


definition bare_parent :: dataframe where
  \<comment> \<open>the normalized row of \<open>parent_without_lines\<close>\<close>
  "bare_parent =
     \<lparr>columns = [''title'', ''type'', ''unique_id''],
      rows = [[(''title'', PStr ''Nut''), (''type'', PStr ''Part''), (''unique_id'', PNum 0)]]\<rparr>"



section \<open>Properties of the classifier\<close>

lemma or_zero_num: "or_zero (PNum x) = PNum x"
  by (simp add: or_zero_def notna_def)

lemma py_le_num: "py_le (PNum x) (PNum y) = Inr (x \<le> y)"
  by (simp add: py_le_def is_number_def num_of_def)

lemma py_lt_num: "py_lt (PNum x) (PNum y) = Inr (x < y)"
  by (simp add: py_lt_def is_number_def num_of_def)

lemma alert_logic_numeric:
  assumes "map_of row ''quantity'' = Some (PNum q)"
    and "map_of row ''par_level'' = Some (PNum p)"
    and "map_of row ''critical_level'' = Some (PNum c)"
  shows "alert_logic row =
           Inr (if q \<le> c then URGENT else if q < p then WARNING else STOCK_OK)"
  using assms
  by (simp add: alert_logic_def getitem_def or_zero_num py_le_num py_lt_num)

text \<open>
  C1. On a row whose quantity, par_level and critical_level are numbers the classifier
  returns one of the three categories, by the first matching rule in this order:
  quantity at most critical_level gives URGENT, else quantity below par_level gives
  Warning, else Stock OK. When the three values are equal the answer is URGENT and not
  Warning.
\<close>

theorem alert_logic_first_match:
  assumes "map_of row ''quantity'' = Some (PNum q)"
    and "map_of row ''par_level'' = Some (PNum p)"
    and "map_of row ''critical_level'' = Some (PNum c)"
  shows "alert_logic row =
           Inr (if q \<le> c then URGENT else if q < p then WARNING else STOCK_OK)
         \<and> alert_logic row \<in> {Inr URGENT, Inr WARNING, Inr STOCK_OK}
         \<and> (q = c \<and> c = p \<longrightarrow> alert_logic row = Inr URGENT \<and> alert_logic row \<noteq> Inr WARNING)"
  by (simp add: alert_logic_numeric [OF assms])

theorem alert_logic_first_match_witness:
  "alert_logic [(''quantity'', PNum 5), (''par_level'', PNum 5), (''critical_level'', PNum 5)]
     = Inr URGENT
   \<and> alert_logic [(''quantity'', PNum 5), (''par_level'', PNum 5), (''critical_level'', PNum 5)]
     \<noteq> Inr WARNING"
  using alert_logic_first_match
    [of "[(''quantity'', PNum 5), (''par_level'', PNum 5), (''critical_level'', PNum 5)]" 5 5 5]
  by simp

text \<open>
  C8. The category of a row depends only on its quantity, par_level and critical_level
  cells: two rows that agree on these three labels get the same result, whatever other
  cells they hold and in whatever order their columns stand.
\<close>

theorem alert_logic_three_fields_only:
  assumes "map_of row1 ''quantity'' = map_of row2 ''quantity''"
    and "map_of row1 ''par_level'' = map_of row2 ''par_level''"
    and "map_of row1 ''critical_level'' = map_of row2 ''critical_level''"
  shows "alert_logic row1 = alert_logic row2"
proof -
  have same: "getitem row1 ''quantity'' = getitem row2 ''quantity''"
    "getitem row1 ''par_level'' = getitem row2 ''par_level''"
    "getitem row1 ''critical_level'' = getitem row2 ''critical_level''"
    using assms by (simp_all add: getitem_def)
  show ?thesis
    unfolding alert_logic_def same by (rule refl)
qed

theorem alert_logic_three_fields_only_witness:
  "alert_logic [(''title'', PStr ''bolt''), (''quantity'', PNum 2), (''par_level'', PNum 10),
                (''critical_level'', PNum 5)]
   = alert_logic [(''critical_level'', PNum 5), (''par_level'', PNum 10), (''quantity'', PNum 2),
                  (''price'', PNone)]"
  using alert_logic_three_fields_only
    [of "[(''title'', PStr ''bolt''), (''quantity'', PNum 2), (''par_level'', PNum 10),
          (''critical_level'', PNum 5)]"
        "[(''critical_level'', PNum 5), (''par_level'', PNum 10), (''quantity'', PNum 2),
          (''price'', PNone)]"]
  by simp

section \<open>Properties of the fetch loop\<close>

lemmas page_vocabulary =
  stop_condition_def no_data_def short_page_def request_failed_def page_items_def
  page_records_def data_field_def

lemma fetch_page_continue:
  assumes "\<not> stop_condition pp r"
  shows "fetch_page pp r acc = Next (acc @ page_records r)"
  using assms
  by (auto simp: page_vocabulary fetch_page_def
      split: response.splits body.splits pyval.splits option.splits if_splits)

lemma fetch_page_stop:
  assumes "stop_condition pp r"
  shows "fetch_page pp r acc = Break (acc @ (if short_page pp r then page_records r else []))"
  using assms
  by (auto simp: page_vocabulary fetch_page_def
      split: response.splits body.splits pyval.splits option.splits if_splits)

lemma fetch_loop_run:
  assumes "stop_condition pp (api (page + k))"
    and "\<forall>p. page \<le> p \<and> p < page + k \<longrightarrow> \<not> stop_condition pp (api p)"
  shows "fetch_loop api pp page acc =
           Some (acc @ concat (map (\<lambda>p. page_records (api p)) [page..<page + k])
                 @ (if short_page pp (api (page + k)) then page_records (api (page + k)) else []))"
  using assms
proof (induction k arbitrary: page acc)
  case 0
  then show ?case
    by (subst fetch_loop.simps) (simp add: fetch_page_stop)
next
  case (Suc k)
  have cont: "fetch_page pp (api page) acc = Next (acc @ page_records (api page))"
    using Suc.prems by (intro fetch_page_continue) auto
  have "fetch_loop api pp (page + 1) (acc @ page_records (api page)) =
          Some ((acc @ page_records (api page))
                @ concat (map (\<lambda>p. page_records (api p)) [page + 1..<page + 1 + k])
                @ (if short_page pp (api (page + 1 + k)) then page_records (api (page + 1 + k))
                   else []))"
    using Suc.prems by (intro Suc.IH) auto
  moreover have "[page..<page + Suc k] = page # [page + 1..<page + 1 + k]"
    by (simp add: upt_conv_Cons)
  moreover have "page + Suc k = page + 1 + k"
    by simp
  ultimately show ?case
    by (subst fetch_loop.simps) (simp only: cont step.case list.map concat.simps append_assoc)
qed

lemma fetch_loop_returns_at_stop:
  assumes ret: "fetch_loop api pp page acc = Some r"
  shows "\<exists>n\<ge>page. stop_condition pp (api n)"
proof (induct api pp page acc r rule: fetch_loop.raw_induct)
  case (1 loop api pp page acc r)
  show ?case
  proof (cases "stop_condition pp (api page)")
    case True
    then show ?thesis by (intro exI [of _ page]) simp
  next
    case False
    then have cont: "fetch_page pp (api page) acc = Next (acc @ page_records (api page))"
      by (simp add: fetch_page_continue)
    with 1(2) have a: "loop api pp (page + 1) (acc @ page_records (api page)) = Some r"
      by simp
    from 1(1) [OF a] obtain n where n: "page + 1 \<le> n" "stop_condition pp (api n)"
      by (elim exE conjE)
    show ?thesis
      using n by (intro exI [of _ n]) simp
  qed
qed (rule ret)

text \<open>
  C4, as the code has it. For every sequence of page responses, the loop started at page
  1 returns exactly when some page meets a stop condition: the request fails (transport
  error, status from 400 to 599, malformed JSON), the page has no data (no object with a
  \<^verbatim>\<open>data\<close> member, or a member that is falsy or cannot be iterated), or the page is
  shorter than the page size. It stops at the first such page \<open>n\<close> with the records of the
  pages before it, followed by the records of page \<open>n\<close> itself when that page is a short
  one; at a failure it returns what the earlier pages gave and raises nothing.
\<close>

theorem fetch_loop_stops_exactly:
  "(\<forall>n. 1 \<le> n \<and> stop_condition pp (api n)
          \<and> (\<forall>p. 1 \<le> p \<and> p < n \<longrightarrow> \<not> stop_condition pp (api p))
      \<longrightarrow> fetch_loop api pp 1 [] =
            Some (concat (map (\<lambda>p. page_records (api p)) [1..<n])
                  @ (if short_page pp (api n) then page_records (api n) else [])))
   \<and> (\<forall>n. 1 \<le> n \<and> request_failed (api n)
          \<and> (\<forall>p. 1 \<le> p \<and> p < n \<longrightarrow> \<not> stop_condition pp (api p))
      \<longrightarrow> fetch_loop api pp 1 [] = Some (concat (map (\<lambda>p. page_records (api p)) [1..<n])))
   \<and> ((\<exists>r. fetch_loop api pp 1 [] = Some r) \<longrightarrow> (\<exists>n\<ge>1. stop_condition pp (api n)))"
proof (intro conjI allI impI)
  fix n
  assume n: "1 \<le> n \<and> stop_condition pp (api n)
             \<and> (\<forall>p. 1 \<le> p \<and> p < n \<longrightarrow> \<not> stop_condition pp (api p))"
  then obtain k where k: "n = 1 + k"
    using le_Suc_ex by blast
  have "fetch_loop api pp 1 [] =
          Some ([] @ concat (map (\<lambda>p. page_records (api p)) [1..<1 + k])
                @ (if short_page pp (api (1 + k)) then page_records (api (1 + k)) else []))"
    using n unfolding k by (intro fetch_loop_run) auto
  then show "fetch_loop api pp 1 [] =
               Some (concat (map (\<lambda>p. page_records (api p)) [1..<n])
                     @ (if short_page pp (api n) then page_records (api n) else []))"
    unfolding k by simp
next
  fix n
  assume n: "1 \<le> n \<and> request_failed (api n)
             \<and> (\<forall>p. 1 \<le> p \<and> p < n \<longrightarrow> \<not> stop_condition pp (api p))"
  then obtain k where k: "n = 1 + k"
    using le_Suc_ex by blast
  from n have failed: "stop_condition pp (api n)" "\<not> short_page pp (api n)"
    by (simp_all add: stop_condition_def short_page_def page_items_def)
  have "fetch_loop api pp 1 [] =
          Some ([] @ concat (map (\<lambda>p. page_records (api p)) [1..<1 + k])
                @ (if short_page pp (api (1 + k)) then page_records (api (1 + k)) else []))"
    using n failed(1) unfolding k by (intro fetch_loop_run) auto
  then show "fetch_loop api pp 1 [] = Some (concat (map (\<lambda>p. page_records (api p)) [1..<n]))"
    using failed(2) unfolding k by simp
next
  assume "\<exists>r. fetch_loop api pp 1 [] = Some r"
  then obtain r where "fetch_loop api pp 1 [] = Some r" ..
  from fetch_loop_returns_at_stop [OF this]
  show "\<exists>n\<ge>1. stop_condition pp (api n)" .
qed

theorem fetch_loop_stops_exactly_witness:
  "fetch_loop two_pages 2 1 [] = Some [PStr ''a'', PStr ''b'', PStr ''c'']"
proof -
  have stop: "1 \<le> (2::nat) \<and> stop_condition 2 (two_pages 2)
              \<and> (\<forall>p. 1 \<le> p \<and> p < 2 \<longrightarrow> \<not> stop_condition 2 (two_pages p))"
  proof (intro conjI allI impI)
    fix p :: nat
    assume "1 \<le> p \<and> p < 2"
    then have "p = 1" by simp
    then show "\<not> stop_condition 2 (two_pages p)"
      by (simp add: page_vocabulary raise_for_status_def truthy_def py_iter_def two_pages_def)
  qed (simp_all add: page_vocabulary raise_for_status_def truthy_def py_iter_def two_pages_def)
  have first: "concat (map (\<lambda>p. page_records (two_pages p)) [1..<2]) = [PStr ''a'', PStr ''b'']"
    by (simp add: upt_conv_Cons page_vocabulary raise_for_status_def truthy_def py_iter_def
        two_pages_def)
  have last: "(if short_page 2 (two_pages 2) then page_records (two_pages 2) else [])
                = [PStr ''c'']"
    by (simp add: page_vocabulary raise_for_status_def truthy_def py_iter_def two_pages_def)
  from fetch_loop_stops_exactly [of 2 two_pages, THEN conjunct1] stop
  have "fetch_loop two_pages 2 1 [] =
          Some (concat (map (\<lambda>p. page_records (two_pages p)) [1..<2])
                @ (if short_page 2 (two_pages 2) then page_records (two_pages 2) else []))"
    by blast
  then show ?thesis
    unfolding first last by simp
qed

lemma loop_on_data_is_number: "fetch_loop data_is_number 25 1 [] = Some []"
  by (subst fetch_loop.simps)
    (simp add: fetch_page_def raise_for_status_def truthy_def py_iter_def data_is_number_def)

lemma loop_on_status_300_first:
  "fetch_loop status_300_first 2 1 [] = Some [PStr ''a'', PStr ''b'']"
proof -
  have first: "fetch_page 2 (status_300_first 1) [] = Next [PStr ''a'', PStr ''b'']"
    by (simp add: fetch_page_def raise_for_status_def truthy_def py_iter_def
        status_300_first_def)
  have second: "fetch_page 2 (status_300_first (1 + 1)) [PStr ''a'', PStr ''b'']
                  = Break [PStr ''a'', PStr ''b'']"
    by (simp add: fetch_page_def raise_for_status_def truthy_def py_iter_def
        status_300_first_def)
  have "fetch_loop status_300_first 2 (1 + 1) [PStr ''a'', PStr ''b'']
          = Some [PStr ''a'', PStr ''b'']"
    by (subst fetch_loop.simps) (simp only: second step.case)
  then show ?thesis
    by (subst fetch_loop.simps) (simp only: first step.case)
qed

theorem listed_stop_conditions_counterexample:
  "fetch_loop data_is_number 25 1 [] = Some []
   \<and> \<not> listed_stop 25 (data_is_number 1)
   \<and> listed_stop 2 (status_300_first 1)
   \<and> fetch_loop status_300_first 2 1 [] = Some [PStr ''a'', PStr ''b'']"
proof (intro conjI)
  show "fetch_loop data_is_number 25 1 [] = Some []"
    by (rule loop_on_data_is_number)
  show "\<not> listed_stop 25 (data_is_number 1)"
    by (simp add: listed_stop_def data_is_number_def)
  show "listed_stop 2 (status_300_first 1)"
    by (simp add: listed_stop_def status_300_first_def)
  show "fetch_loop status_300_first 2 1 [] = Some [PStr ''a'', PStr ''b'']"
    by (rule loop_on_status_300_first)
qed

section \<open>Properties of the flattener\<close>

subsection \<open>Evaluation on the examples\<close>

lemmas frame_ops =
  to_dataframe_def json_normalize_list_def simple_json_normalize_def normalise_json_ordered_def
  is_dict_def frame_of_dicts_def unique_labels_def reindex_def cell_def index_column_def
  set_column_def set_scalar_def json_normalize_def map_column_def ensure_list_def list_items_def
  concat_frames_def df_empty_def drop_column_def merge_left_def left_label_def right_label_def
  join_rows_def matches_def process_merged_def project_def
  columnstokeep_def numeric_cols_def coerce_column_def column_values_def fillna_all_def fillna0_def
  to_numeric_def coerce_value_def is_bool_def notna_def

lemma parse_digits_examples:
  "parse_digits ''N/A'' = None" "parse_digits ''10'' = Some 10"
  by (simp_all add: parse_digits_def digit_value_def)

lemma flatten_parent_with_lines:
  "flatten_process_inventory_data parse_digits (to_dataframe [parent_with_lines])
     = Inr flattened_lines"
  by (simp add: flatten_process_inventory_data_def merge_inventories_def frame_ops
      parse_digits_examples parent_with_lines_def flattened_lines_def upt_conv_Cons)

subsection \<open>Cells\<close>

lemma map_of_map_values:
  "map_of (map (\<lambda>(k, v). (k, h k v)) r) c = map_option (h c) (map_of r c)"
  by (induction r) auto

lemma cell_map_other:
  "c \<noteq> c' \<Longrightarrow> cell (map (\<lambda>(k, v). (k, if k = c' then g v else v)) r) c = cell r c"
  by (simp add: cell_def map_of_map_values [where h = "\<lambda>k v. if k = c' then g v else v"]
      split: option.splits)

lemma map_of_filter_other:
  "c \<noteq> c' \<Longrightarrow> map_of (filter (\<lambda>kv. fst kv \<noteq> c') r) c = map_of r c"
  by (induction r) auto

lemma cell_filter_other:
  "c \<noteq> c' \<Longrightarrow> cell (filter (\<lambda>kv. fst kv \<noteq> c') r) c = cell r c"
  by (simp add: cell_def map_of_filter_other)

lemma cell_row_set_same: "cell (row_set c v r) c = v"
  by (induction r) (auto simp: cell_def)

lemma map_of_labels: "c \<in> set cs \<Longrightarrow> map_of (map (\<lambda>c. (c, g c)) cs) c = Some (g c)"
  by (induction cs) auto

lemma cell_reindex: "c \<in> set cs \<Longrightarrow> cell (reindex cs r) c = cell r c"
  by (simp add: reindex_def cell_def [of "map _ _"] map_of_labels)

lemma set_unique_labels: "set (unique_labels cs) = set cs"
  by (simp add: unique_labels_def)

lemma items_after_ensure_list:
  "list_items (cell (map (\<lambda>(k, v). (k, if k = ''inventories'' then ensure_list v else v)) r)
                 ''inventories'')
   = list_items (ensure_list (cell r ''inventories''))"
  by (simp add: cell_def map_of_map_values [where h = "\<lambda>k v. if k = ''inventories'' then ensure_list v else v"]
      ensure_list_def list_items_def split: option.splits)

subsection \<open>The numeric columns\<close>

lemma length_to_numeric: "length (to_numeric parse vs) = length vs"
  by (simp add: to_numeric_def)




lemma coerce_column_columns: "columns (coerce_column parse c df) = columns df"
  by (simp add: coerce_column_def set_column_def)

lemma coerce_column_length: "length (rows (coerce_column parse c df)) = length (rows df)"
  by (simp add: coerce_column_def set_column_def column_values_def length_to_numeric)





lemma coerce_columns_frame:
  "columns (foldl (\<lambda>df col. coerce_column parse col df) df cs) = columns df"
  "length (rows (foldl (\<lambda>df col. coerce_column parse col df) df cs)) = length (rows df)"
  by (induction cs arbitrary: df) (simp_all add: coerce_column_columns coerce_column_length)







lemma process_merged_length: "length (rows (process_merged parse m)) = length (rows m)"
  by (simp add: process_merged_def fillna_all_def coerce_columns_frame project_def)

lemma process_merged_empty:
  "df_empty m \<Longrightarrow> process_merged parse m = m"
  by (simp add: process_merged_def)







lemma flatten_parent_without_lines:
  "flatten_process_inventory_data parse (to_dataframe [parent_without_lines])
     = Inr bare_parent"
  by (simp add: flatten_process_inventory_data_def merge_inventories_def frame_ops
      parent_without_lines_def bare_parent_def upt_conv_Cons)


subsection \<open>A frame with no inventories column\<close>

lemma flatten_needs_inventories_column:
  "''inventories'' \<notin> set (columns df) \<Longrightarrow>
     flatten_process_inventory_data parse df = Inl (KeyError [''inventories''])"
  by (simp add: flatten_process_inventory_data_def merge_inventories_def)

lemma absent_field_like_empty_list:
  "flatten_process_inventory_data parse
     (to_dataframe [parent_without_lines, PDict [(''title'', PStr ''Bolt''), (''type'', PStr ''Part'')]])
   = flatten_process_inventory_data parse
       (to_dataframe [parent_without_lines,
          PDict [(''title'', PStr ''Bolt''), (''type'', PStr ''Part''), (''inventories'', PList [])]])"
  by (simp add: flatten_process_inventory_data_def merge_inventories_def frame_ops
      parent_without_lines_def upt_conv_Cons)

text \<open>
  C3, where the code departs from it. When no record of the input carries the
  \<^verbatim>\<open>inventories\<close> member, the frame has no such column and line 214 raises KeyError:
  the flattener does not treat the input as records with empty lists.
\<close>

theorem flatten_raises_without_inventories_member:
  "flatten_process_inventory_data parse (to_dataframe [parent_without_field])
     = Inl (KeyError [''inventories''])"
  by (simp add: flatten_needs_inventories_column frame_ops parent_without_field_def
      upt_conv_Cons)

subsection \<open>The number of rows\<close>

lemma json_normalize_object:
  "is_dict v \<Longrightarrow> \<exists>f. json_normalize v = Inr f \<and> length (rows f) = 1"
  by (cases v) (simp_all add: is_dict_def json_normalize_def frame_of_dicts_def Let_def)

lemma set_scalar_one_row:
  assumes "length (rows f) = 1"
  shows "length (rows (set_scalar c v f)) = 1"
    and "frame_keys (set_scalar ''unique_id'' v f) = [v]"
    and "c \<in> set (columns (set_scalar c v f))"
proof -
  from assms obtain r where r: "rows f = [r]"
    by (cases "rows f") auto
  show "length (rows (set_scalar c v f)) = 1"
    by (simp add: set_scalar_def set_column_def r)
  show "frame_keys (set_scalar ''unique_id'' v f) = [v]"
    by (simp add: frame_keys_def set_scalar_def set_column_def r cell_row_set_same)
  show "c \<in> set (columns (set_scalar c v f))"
    by (simp add: set_scalar_def set_column_def)
qed

lemma explode_row_objects:
  assumes "list_all is_dict invs"
  shows "\<exists>fs. explode_row idx invs = Inr fs \<and> length fs = length invs
           \<and> (\<forall>f\<in>set fs. length (rows f) = 1 \<and> frame_keys f = [PNum (real idx)]
                 \<and> ''unique_id'' \<in> set (columns f))"
  using assms
proof (induction invs)
  case Nil
  then show ?case by simp
next
  case (Cons v invs)
  from Cons.prems have "is_dict v" and rest: "list_all is_dict invs"
    by simp_all
  from json_normalize_object [OF this(1)]
  obtain f where f: "json_normalize v = Inr f" "length (rows f) = 1"
    by blast
  from Cons.IH [OF rest]
  obtain fs where fs: "explode_row idx invs = Inr fs" "length fs = length invs"
    "\<forall>f\<in>set fs. length (rows f) = 1 \<and> frame_keys f = [PNum (real idx)]
        \<and> ''unique_id'' \<in> set (columns f)"
    by blast
  have "explode_row idx (v # invs) = Inr (set_scalar ''unique_id'' (PNum (real idx)) f # fs)"
    by (simp add: f(1) fs(1))
  with fs(2,3) set_scalar_one_row [OF f(2)] show ?case
    by simp
qed

lemma concat_singletons:
  "\<forall>f\<in>set fs. g f = [k] \<Longrightarrow> concat (map g fs) = replicate (length fs) k"
  by (induction fs) simp_all

lemma iterrows_objects:
  assumes "\<forall>row\<in>set rs. list_all is_dict (list_items (cell row ''inventories''))"
  shows "\<exists>fs. iterrows idx rs = Inr fs
           \<and> length fs = sum_list (map (\<lambda>row. length (list_items (cell row ''inventories''))) rs)
           \<and> (\<forall>f\<in>set fs. length (rows f) = 1 \<and> ''unique_id'' \<in> set (columns f))
           \<and> concat (map frame_keys fs) =
               concat (map (\<lambda>(i, row). replicate (length (list_items (cell row ''inventories'')))
                                          (PNum (real i)))
                         (zip [idx..<idx + length rs] rs))"
  using assms
proof (induction rs arbitrary: idx)
  case Nil
  then show ?case by simp
next
  case (Cons row rs)
  let ?items = "list_items (cell row ''inventories'')"
  from Cons.prems have "list_all is_dict ?items"
    and rest: "\<forall>row\<in>set rs. list_all is_dict (list_items (cell row ''inventories''))"
    by simp_all
  from explode_row_objects [OF this(1), of idx]
  obtain fs where fs: "explode_row idx ?items = Inr fs" "length fs = length ?items"
    "\<forall>f\<in>set fs. length (rows f) = 1 \<and> frame_keys f = [PNum (real idx)]
        \<and> ''unique_id'' \<in> set (columns f)"
    by blast
  from Cons.IH [OF rest, of "Suc idx"]
  obtain gs where gs: "iterrows (Suc idx) rs = Inr gs"
    "length gs = sum_list (map (\<lambda>row. length (list_items (cell row ''inventories''))) rs)"
    "\<forall>f\<in>set gs. length (rows f) = 1 \<and> ''unique_id'' \<in> set (columns f)"
    "concat (map frame_keys gs) =
       concat (map (\<lambda>(i, row). replicate (length (list_items (cell row ''inventories'')))
                                  (PNum (real i)))
                 (zip [Suc idx..<Suc idx + length rs] rs))"
    by blast
  have run: "iterrows idx (row # rs) = Inr (fs @ gs)"
    by (simp add: fs(1) gs(1))
  have keys: "concat (map frame_keys fs) = replicate (length ?items) (PNum (real idx))"
    using fs(3) concat_singletons [of fs frame_keys "PNum (real idx)"] by (simp add: fs(2))
  have upt: "[idx..<idx + length (row # rs)] = idx # [Suc idx..<Suc idx + length rs]"
    by (subst upt_rec) simp
  show ?case
    unfolding run upt using fs(2,3) gs(2,3) by (auto simp: keys gs(4))
qed

lemma concat_frames_keys:
  assumes "\<forall>f\<in>set fs. ''unique_id'' \<in> set (columns f)"
  shows "frame_keys (concat_frames fs) = concat (map frame_keys fs)"
proof -
  let ?cols = "unique_labels (concat (map columns fs))"
  have "\<And>f r. f \<in> set fs \<Longrightarrow> cell (reindex ?cols r) ''unique_id'' = cell r ''unique_id''"
    using assms by (intro cell_reindex) (auto simp: set_unique_labels)
  then have "\<And>f. f \<in> set fs \<Longrightarrow>
      map (\<lambda>r. cell r ''unique_id'') (map (reindex ?cols) (rows f)) = frame_keys f"
    by (simp add: frame_keys_def)
  then show ?thesis
    by (simp add: concat_frames_def frame_keys_def Let_def map_concat cong: map_cong)
qed

lemma concat_frames_not_empty:
  assumes "fs \<noteq> []"
    and "\<forall>f\<in>set fs. length (rows f) = 1 \<and> ''unique_id'' \<in> set (columns f)"
  shows "\<not> df_empty (concat_frames fs)"
    and "''unique_id'' \<in> set (columns (concat_frames fs))"
proof -
  from assms(1) obtain f where "f \<in> set fs"
    by (cases fs) auto
  with assms(2) have f: "f \<in> set fs" "rows f \<noteq> []" "''unique_id'' \<in> set (columns f)"
    by auto
  show cols: "''unique_id'' \<in> set (columns (concat_frames fs))"
    using f(1,3) by (auto simp: concat_frames_def Let_def set_unique_labels)
  have "rows (concat_frames fs) \<noteq> []"
    using f(1,2) by (auto simp: concat_frames_def Let_def)
  with cols show "\<not> df_empty (concat_frames fs)"
    by (auto simp: df_empty_def)
qed

lemma count_keys:
  "length (filter (\<lambda>k. k = PNum (real i))
            (concat (map (\<lambda>(j, row). replicate (n row) (PNum (real j)))
                       (zip [a..<a + length rs] rs))))
   = (if a \<le> i \<and> i < a + length rs then n (rs ! (i - a)) else 0)"
proof (induction rs arbitrary: a)
  case Nil
  then show ?case by simp
next
  case (Cons row rs)
  have upt: "[a..<a + length (row # rs)] = a # [Suc a..<Suc a + length rs]"
    by (subst upt_rec) simp
  have split: "length (filter (\<lambda>k. k = PNum (real i))
            (concat (map (\<lambda>(j, row). replicate (n row) (PNum (real j)))
                       (zip [a..<a + length (row # rs)] (row # rs)))))
     = (if a = i then n row else 0)
       + (if Suc a \<le> i \<and> i < Suc a + length rs then n (rs ! (i - Suc a)) else 0)"
    unfolding upt using Cons.IH [of "Suc a"] by (simp del: upt_Suc)
  show ?case
  proof (cases "a = i")
    case True
    then show ?thesis unfolding split by simp
  next
    case False
    show ?thesis
    proof (cases "a < i")
      case True
      then have "(row # rs) ! (i - a) = rs ! (i - Suc a)"
        by (simp add: nth_Cons')
      with True show ?thesis unfolding split by auto
    next
      case False
      with \<open>a \<noteq> i\<close> show ?thesis unfolding split by simp
    qed
  qed
qed

lemma length_one_or_matches:
  "length (if ms = [] then [x] else map g ms) = max 1 (length ms)"
  by (cases ms) simp_all

lemma count_matches:
  "length (matches key right l)
     = length (filter (\<lambda>k. k = cell l key) (map (\<lambda>r. cell r key) (rows right)))"
  by (simp add: matches_def filter_map comp_def)

lemma merge_left_length:
  assumes "merge_left key left right = Inr m"
  shows "length (rows m) =
           sum_list (map (\<lambda>l. max 1 (length (filter (\<lambda>k. k = cell l key)
                                                 (map (\<lambda>r. cell r key) (rows right)))))
                       (rows left))"
proof -
  from assms have "rows m =
      concat (map (\<lambda>l. if matches key right l = [] then [join_rows key left right l []]
                        else map (join_rows key left right l) (matches key right l))
                (rows left))"
    by (auto simp: merge_left_def split: if_splits)
  then show ?thesis
    by (simp add: length_concat comp_def length_one_or_matches count_matches)
qed

lemma sum_by_position:
  assumes "map key rs = map k [0..<length rs]"
    and "\<And>i. i < length rs \<Longrightarrow> F (k i) = G (rs ! i)"
  shows "sum_list (map (\<lambda>r. F (key r)) rs) = sum_list (map G rs)"
proof -
  have "map (\<lambda>r. F (key r)) rs = map F (map key rs)"
    by simp
  also have "\<dots> = map (\<lambda>i. F (k i)) [0..<length rs]"
    unfolding assms(1) by simp
  also have "\<dots> = map (\<lambda>i. G (rs ! i)) [0..<length rs]"
    using assms(2) by simp
  also have "\<dots> = map G rs"
    by (rule nth_equalityI) simp_all
  finally show ?thesis by (rule arg_cong [where f = sum_list])
qed


lemma all_single_rows:
  assumes "sum_list (map n rs) = (0::nat)"
  shows "sum_list (map (\<lambda>r. max 1 (n r)) rs) = length rs"
  using assms by (induction rs) simp_all

text \<open>
  C2, as the code has it. The merge of line 234 is a left join, and line 236 keeps the
  parents when there is no line at all: a parent with \<open>k\<close> inventory lines gives \<open>k\<close>
  rows when \<open>k\<close> is positive and one row when it has none. For a frame as
  \<^verbatim>\<open>get_inventory_data\<close> returns it (an \<^verbatim>\<open>inventories\<close> column, \<^verbatim>\<open>unique_id\<close> the row
  position), whose inventory lines are objects, the result has the sum of \<open>max 1 k\<close>
  rows.
\<close>

theorem flatten_row_count:
  assumes inv: "''inventories'' \<in> set (columns inventory_df)"
    and uid: "''unique_id'' \<in> set (columns inventory_df)"
    and pos: "indexed_by_position inventory_df"
    and obj: "\<forall>r\<in>set (rows inventory_df). lines_are_objects r"
  shows "\<exists>merged_data.
           flatten_process_inventory_data parse inventory_df = Inr merged_data
           \<and> length (rows merged_data)
               = sum_list (map (\<lambda>r. max 1 (line_count r)) (rows inventory_df))"
proof -
  let ?rs = "rows inventory_df"
  let ?g = "map (\<lambda>(k, v). (k, if k = ''inventories'' then ensure_list v else v))"
  let ?n = "\<lambda>row. length (list_items (cell row ''inventories''))"
  let ?df1 = "map_column ''inventories'' ensure_list inventory_df"
  let ?left = "drop_column ''inventories'' ?df1"
  have rows1: "rows ?df1 = map ?g ?rs"
    by (simp add: map_column_def)
  have n: "\<And>r. ?n (?g r) = line_count r"
    by (simp add: items_after_ensure_list line_count_def)
  have "\<forall>row\<in>set (map ?g ?rs). list_all is_dict (list_items (cell row ''inventories''))"
    using obj by (simp add: items_after_ensure_list lines_are_objects_def)
  from iterrows_objects [OF this, of 0]
  obtain fs where fs: "iterrows 0 (map ?g ?rs) = Inr fs"
    and len: "length fs = sum_list (map ?n (map ?g ?rs))"
    and one: "\<forall>f\<in>set fs. length (rows f) = 1 \<and> ''unique_id'' \<in> set (columns f)"
    and keys: "concat (map frame_keys fs) =
                 concat (map (\<lambda>(i, row). replicate (?n row) (PNum (real i)))
                           (zip [0..<0 + length (map ?g ?rs)] (map ?g ?rs)))"
    by blast
  have total: "length fs = sum_list (map line_count ?rs)"
    unfolding len by (simp add: comp_def n)
  have left_rows: "rows ?left = map (\<lambda>r. filter (\<lambda>kv. fst kv \<noteq> ''inventories'') (?g r)) ?rs"
    by (simp add: drop_column_def map_column_def)
  have left_key: "\<And>r. cell (filter (\<lambda>kv. fst kv \<noteq> ''inventories'') (?g r)) ''unique_id''
                      = cell r ''unique_id''"
    by (simp add: cell_filter_other cell_map_other)
  show ?thesis
  proof (cases "fs = []")
    case True
    then have "flatten_process_inventory_data parse inventory_df
                 = Inr (process_merged parse ?left)"
      using inv fs
      by (simp add: flatten_process_inventory_data_def merge_inventories_def rows1 df_empty_def)
    moreover have "length (rows (process_merged parse ?left)) = length ?rs"
      by (simp add: process_merged_length left_rows)
    moreover have "sum_list (map (\<lambda>r. max 1 (line_count r)) ?rs) = length ?rs"
      using True total by (intro all_single_rows) simp
    ultimately show ?thesis by simp
  next
    case False
    let ?right = "concat_frames fs"
    from concat_frames_not_empty [OF False one]
    have right: "\<not> df_empty ?right" "''unique_id'' \<in> set (columns ?right)"
      by simp_all
    have "''unique_id'' \<in> set (columns ?left)"
      using uid by (simp add: drop_column_def map_column_def)
    with right(2) obtain m where m: "merge_left ''unique_id'' ?left ?right = Inr m"
      by (simp add: merge_left_def)
    have run: "flatten_process_inventory_data parse inventory_df = Inr (process_merged parse m)"
      using inv fs False right(1) m
      by (simp add: flatten_process_inventory_data_def merge_inventories_def rows1)
    have right_keys: "map (\<lambda>r. cell r ''unique_id'') (rows ?right) = concat (map frame_keys fs)"
      using concat_frames_keys [of fs] one by (simp add: frame_keys_def)
    let ?K = "concat (map frame_keys fs)"
    have "length (rows m)
            = sum_list (map (\<lambda>r. max 1 (length (filter (\<lambda>k. k = cell r ''unique_id'') ?K))) ?rs)"
      unfolding merge_left_length [OF m] right_keys left_rows
      by (simp add: comp_def left_key)
    also have "\<dots> = sum_list (map (\<lambda>r. max 1 (line_count r)) ?rs)"
    proof (rule sum_by_position [where k = "\<lambda>i. PNum (real i)"
          and F = "\<lambda>k. max 1 (length (filter (\<lambda>k'. k' = k) ?K))"])
      show "map (\<lambda>r. cell r ''unique_id'') ?rs = map (\<lambda>i. PNum (real i)) [0..<length ?rs]"
        using pos by (simp add: indexed_by_position_def index_column_def)
    next
      fix i
      assume i: "i < length ?rs"
      have "length (filter (\<lambda>k'. k' = PNum (real i)) ?K) = ?n (map ?g ?rs ! i)"
        unfolding keys using i count_keys [of i ?n 0 "map ?g ?rs"] by simp
      also have "\<dots> = line_count (?rs ! i)"
        using i by (simp add: n)
      finally show "max 1 (length (filter (\<lambda>k'. k' = PNum (real i)) ?K))
                      = max 1 (line_count (?rs ! i))"
        by simp
    qed
    finally have "length (rows (process_merged parse m))
                    = sum_list (map (\<lambda>r. max 1 (line_count r)) ?rs)"
      by (simp add: process_merged_length)
    with run show ?thesis by simp
  qed
qed


theorem flatten_row_count_witness:
  "row_count (flatten_process_inventory_data parse_digits
                (to_dataframe [parent_with_lines, parent_without_lines])) = Some 3
   \<and> map line_count (rows (to_dataframe [parent_with_lines, parent_without_lines])) = [2, 0]"
proof -
  let ?df = "to_dataframe [parent_with_lines, parent_without_lines]"
  have lines: "map line_count (rows ?df) = [2, 0]"
    by (simp add: line_count_def frame_ops parent_with_lines_def parent_without_lines_def
        upt_conv_Cons)
  have inv: "''inventories'' \<in> set (columns ?df)" and uid: "''unique_id'' \<in> set (columns ?df)"
    by (simp_all add: frame_ops parent_with_lines_def parent_without_lines_def)
  have pos: "indexed_by_position ?df"
    by (simp add: indexed_by_position_def frame_ops parent_with_lines_def
        parent_without_lines_def upt_conv_Cons)
  have obj: "\<forall>r\<in>set (rows ?df). lines_are_objects r"
    by (simp add: lines_are_objects_def frame_ops parent_with_lines_def
        parent_without_lines_def upt_conv_Cons)
  from flatten_row_count [OF inv uid pos obj, of parse_digits]
  obtain merged_data where
    "flatten_process_inventory_data parse_digits ?df = Inr merged_data"
    "length (rows merged_data) = sum_list (map (\<lambda>r. max 1 (line_count r)) (rows ?df))"
    by blast
  moreover have "sum_list (map (\<lambda>r. max 1 (line_count r)) (rows ?df)) = 3"
    using lines by (simp add: map_eq_Cons_conv) (auto simp: map_eq_Cons_conv)
  ultimately have "row_count (flatten_process_inventory_data parse_digits ?df) = Some 3"
    by (simp add: row_count_def)
  with lines show ?thesis
    by (intro conjI)
qed

theorem parent_without_lines_counterexample:
  "row_count (flatten_process_inventory_data parse_digits (to_dataframe [parent_without_lines]))
     = Some 1
   \<and> sum_list (map line_count (rows (to_dataframe [parent_without_lines]))) = 0"
  by (simp add: flatten_parent_without_lines row_count_def bare_parent_def)
    (simp add: line_count_def frame_ops parent_without_lines_def upt_conv_Cons)

section \<open>Properties of the pipeline\<close>

lemma where_ne_rows:
  assumes "where_ne c v df = Inr d"
  shows "rows d = filter (\<lambda>r. \<not> py_eq (cell r c) v) (rows df)" and "columns d = columns df"
  using assms by (auto simp: where_ne_def filter_rows_def split: if_splits)

lemma pre_filter_rows:
  assumes "pre_filter merged_data = Inr classifier_input"
  shows "rows classifier_input =
           filter (\<lambda>r. \<not> py_eq (cell r ''type'') (PStr ''Procurement Pending'')
                        \<and> \<not> py_eq (cell r ''par_level'') (PNum 0)
                        \<and> \<not> py_eq (cell r ''critical_level'') (PNum 0))
             (rows merged_data)"
proof -
  from assms obtain d1 d2 where
    d1: "where_ne ''type'' (PStr ''Procurement Pending'') merged_data = Inr d1"
    and d2: "where_ne ''par_level'' (PNum 0) d1 = Inr d2"
    and d3: "where_ne ''critical_level'' (PNum 0) d2 = Inr classifier_input"
    by (auto simp: pre_filter_def split: sum.splits)
  show ?thesis
    unfolding where_ne_rows(1) [OF d3] where_ne_rows(1) [OF d2] where_ne_rows(1) [OF d1]
    by (simp add: conj_commute conj_left_commute)
qed

lemma py_eq_same_num: "py_eq (PNum x) (PNum x)"
  by (simp add: py_eq_def num_of_def)

lemma py_eq_same_str: "py_eq (PStr s) (PStr s)"
  by (simp add: py_eq_def num_of_def)

lemma pre_filter_kept: "pre_filter thresholds_frame = Inr kept_frame"
  by (simp add: pre_filter_def where_ne_def filter_rows_def py_eq_def num_of_def cell_def
      thresholds_frame_def kept_frame_def)

text \<open>
  C9. The frame handed to the classifier is what lines 264 to 266 leave of the flattened
  data: the rows whose type is not "Procurement Pending" and whose par_level and
  critical_level are both different from 0. So no row with a zero threshold, and in
  particular no row with both thresholds and the quantity at 0, reaches the classifier.
\<close>

theorem classifier_input_has_no_zero_threshold:
  assumes "pre_filter merged_data = Inr classifier_input"
  shows "rows classifier_input =
           filter (\<lambda>r. \<not> py_eq (cell r ''type'') (PStr ''Procurement Pending'')
                        \<and> \<not> py_eq (cell r ''par_level'') (PNum 0)
                        \<and> \<not> py_eq (cell r ''critical_level'') (PNum 0))
             (rows merged_data)
         \<and> (\<forall>r\<in>set (rows classifier_input).
               cell r ''par_level'' \<noteq> PNum 0 \<and> cell r ''critical_level'' \<noteq> PNum 0
               \<and> cell r ''type'' \<noteq> PStr ''Procurement Pending'')
         \<and> (flatten_process_inventory_data parse inventory_data = Inr merged_data
              \<longrightarrow> main_from parse inventory_data = report_alerts classifier_input)"
proof (intro conjI ballI impI)
  show kept: "rows classifier_input =
           filter (\<lambda>r. \<not> py_eq (cell r ''type'') (PStr ''Procurement Pending'')
                        \<and> \<not> py_eq (cell r ''par_level'') (PNum 0)
                        \<and> \<not> py_eq (cell r ''critical_level'') (PNum 0))
             (rows merged_data)"
    by (rule pre_filter_rows [OF assms])
  fix r
  assume "r \<in> set (rows classifier_input)"
  then have r: "\<not> py_eq (cell r ''type'') (PStr ''Procurement Pending'')"
    "\<not> py_eq (cell r ''par_level'') (PNum 0)" "\<not> py_eq (cell r ''critical_level'') (PNum 0)"
    unfolding kept by simp_all
  show "cell r ''par_level'' \<noteq> PNum 0"
    using r(2) py_eq_same_num [of 0] by auto
  show "cell r ''critical_level'' \<noteq> PNum 0"
    using r(3) py_eq_same_num [of 0] by auto
  show "cell r ''type'' \<noteq> PStr ''Procurement Pending''"
    using r(1) py_eq_same_str [of "''Procurement Pending''"] by auto
next
  assume "flatten_process_inventory_data parse inventory_data = Inr merged_data"
  then show "main_from parse inventory_data = report_alerts classifier_input"
    using assms by (simp add: main_from_def)
qed

theorem classifier_input_has_no_zero_threshold_witness:
  "pre_filter thresholds_frame = Inr kept_frame
   \<and> length (rows thresholds_frame) = 5 \<and> length (rows kept_frame) = 1
   \<and> cell (hd (rows kept_frame)) ''par_level'' \<noteq> PNum 0
   \<and> cell (hd (rows kept_frame)) ''critical_level'' \<noteq> PNum 0
   \<and> cell (hd (rows kept_frame)) ''type'' \<noteq> PStr ''Procurement Pending''"
proof -
  have kept: "\<forall>r\<in>set (rows kept_frame).
          cell r ''par_level'' \<noteq> PNum 0 \<and> cell r ''critical_level'' \<noteq> PNum 0
          \<and> cell r ''type'' \<noteq> PStr ''Procurement Pending''"
    by (rule classifier_input_has_no_zero_threshold
        [OF pre_filter_kept, THEN conjunct2, THEN conjunct1])
  have "hd (rows kept_frame) \<in> set (rows kept_frame)"
    by (simp add: kept_frame_def)
  with kept have "cell (hd (rows kept_frame)) ''par_level'' \<noteq> PNum 0"
    "cell (hd (rows kept_frame)) ''critical_level'' \<noteq> PNum 0"
    "cell (hd (rows kept_frame)) ''type'' \<noteq> PStr ''Procurement Pending''"
    by blast+
  moreover have "length (rows thresholds_frame) = 5" "length (rows kept_frame) = 1"
    by (simp_all add: thresholds_frame_def kept_frame_def)
  ultimately show ?thesis
    using pre_filter_kept by (intro conjI)
qed

lemma generate_inventory_alerts_columns:
  assumes "generate_inventory_alerts df = Inr alerts_df"
  shows "set (columns alerts_df) = insert ''alert'' (set (columns df))"
  using assms
  by (auto simp: generate_inventory_alerts_def set_column_def Let_def
      split: if_splits sum.splits)

lemma alerts_of_kept_frame:
  "generate_inventory_alerts kept_frame =
     Inr \<lparr>columns = [''type'', ''quantity'', ''par_level'', ''critical_level'', ''alert''],
          rows =
            [[(''type'', PStr ''Part''), (''quantity'', PNum 2), (''par_level'', PNum 10),
              (''critical_level'', PNum 5), (''alert'', PStr URGENT)]]\<rparr>"
  by (simp add: generate_inventory_alerts_def required_cols_def fillna_in_def notna_def
      alert_logic_def getitem_def or_zero_def py_le_def py_lt_def is_number_def num_of_def
      set_column_def kept_frame_def)

text \<open>
  C10. The pipeline reads the columns \<^verbatim>\<open>type\<close> and \<^verbatim>\<open>store.title\<close> without a guard. When
  the flattened frame has no \<^verbatim>\<open>type\<close> column, line 264 raises KeyError and
  \<^verbatim>\<open>main\<close> ends with it; when the frame has no \<^verbatim>\<open>store.title\<close> column,
  \<^verbatim>\<open>send_email_notification\<close> raises KeyError at line 62, and so does \<^verbatim>\<open>main\<close> at line 275
  as soon as there is an alert to report.
\<close>

theorem missing_type_or_site_column_is_key_error:
  "(''type'' \<notin> set (columns merged_data) \<longrightarrow>
      pre_filter merged_data = Inl (KeyError [''type''])
      \<and> (flatten_process_inventory_data parse inventory_data = Inr merged_data
           \<longrightarrow> main_from parse inventory_data = Inl (KeyError [''type''])))
   \<and> (''store.title'' \<notin> set (columns filtered_df) \<longrightarrow>
        send_email_notification filtered_df = Inl (KeyError [''store.title'']))
   \<and> (''store.title'' \<notin> set (columns classifier_input)
        \<and> generate_inventory_alerts classifier_input = Inr alerts_df
        \<and> \<not> df_empty (filter_rows alert_filter alerts_df) \<longrightarrow>
        report_alerts classifier_input = Inl (KeyError [''store.title'']))"
proof (intro conjI impI)
  assume "''type'' \<notin> set (columns merged_data)"
  then show no_type: "pre_filter merged_data = Inl (KeyError [''type''])"
    by (simp add: pre_filter_def where_ne_def)
  assume "flatten_process_inventory_data parse inventory_data = Inr merged_data"
  then show "main_from parse inventory_data = Inl (KeyError [''type''])"
    by (simp add: main_from_def no_type)
next
  assume "''store.title'' \<notin> set (columns filtered_df)"
  then show "send_email_notification filtered_df = Inl (KeyError [''store.title''])"
    by (simp add: send_email_notification_def prepare_report_def where_eq_def)
next
  assume h: "''store.title'' \<notin> set (columns classifier_input)
             \<and> generate_inventory_alerts classifier_input = Inr alerts_df
             \<and> \<not> df_empty (filter_rows alert_filter alerts_df)"
  then have "''store.title'' \<notin> set (columns (filter_rows alert_filter alerts_df))"
    using generate_inventory_alerts_columns [of classifier_input alerts_df]
    by (simp add: filter_rows_def)
  with h show "report_alerts classifier_input = Inl (KeyError [''store.title''])"
    by (simp add: report_alerts_def Let_def)
qed

theorem missing_type_or_site_column_is_key_error_witness:
  "main_from parse_digits (to_dataframe [parent_with_lines]) = Inl (KeyError [''type''])
   \<and> send_email_notification flattened_lines = Inl (KeyError [''store.title''])
   \<and> report_alerts kept_frame = Inl (KeyError [''store.title''])"
proof -
  note claim = missing_type_or_site_column_is_key_error
    [of flattened_lines parse_digits "to_dataframe [parent_with_lines]" flattened_lines
      kept_frame
      "\<lparr>columns = [''type'', ''quantity'', ''par_level'', ''critical_level'', ''alert''],
        rows = [[(''type'', PStr ''Part''), (''quantity'', PNum 2), (''par_level'', PNum 10),
                 (''critical_level'', PNum 5), (''alert'', PStr URGENT)]]\<rparr>"]
  have no_type: "''type'' \<notin> set (columns flattened_lines)"
    and no_site: "''store.title'' \<notin> set (columns flattened_lines)"
    and no_site': "''store.title'' \<notin> set (columns kept_frame)"
    by (simp_all add: flattened_lines_def kept_frame_def)
  have alerting: "\<not> df_empty (filter_rows alert_filter
      \<lparr>columns = [''type'', ''quantity'', ''par_level'', ''critical_level'', ''alert''],
        rows = [[(''type'', PStr ''Part''), (''quantity'', PNum 2), (''par_level'', PNum 10),
                 (''critical_level'', PNum 5), (''alert'', PStr URGENT)]]\<rparr>)"
    by (simp add: df_empty_def filter_rows_def alert_filter_def cell_def)
  from claim [THEN conjunct1] no_type flatten_parent_with_lines
  have "main_from parse_digits (to_dataframe [parent_with_lines]) = Inl (KeyError [''type''])"
    by blast
  moreover from claim [THEN conjunct2, THEN conjunct1] no_site
  have "send_email_notification flattened_lines = Inl (KeyError [''store.title''])"
    by blast
  moreover from claim [THEN conjunct2, THEN conjunct2] no_site' alerts_of_kept_frame alerting
  have "report_alerts kept_frame = Inl (KeyError [''store.title''])"
    by blast
  ultimately show ?thesis
    by (intro conjI)
qed

section \<open>Properties of the report order\<close>

lemma mset_insort_by: "mset (insort_by le x xs) = add_mset x (mset xs)"
  by (induction xs) auto

lemma set_insort_by: "set (insort_by le x xs) = insert x (set xs)"
  by (induction xs) auto

lemma sorted_insort_by:
  assumes total: "\<And>a b. le a b \<or> le b a"
    and trans: "\<And>a b c. le a b \<Longrightarrow> le b c \<Longrightarrow> le a c"
    and sorted: "sorted_wrt le xs"
  shows "sorted_wrt le (insort_by le x xs)"
  using sorted
proof (induction xs)
  case Nil
  then show ?case by simp
next
  case (Cons y ys)
  show ?case
  proof (cases "le x y")
    case True
    with Cons.prems trans show ?thesis
      by auto
  next
    case False
    with total have "le y x" by blast
    with False Cons show ?thesis
      by (auto simp: set_insort_by)
  qed
qed

lemma mset_sort_by: "mset (sort_by le xs) = mset xs"
  by (induction xs) (simp_all add: sort_by_def mset_insort_by)

lemma sorted_sort_by:
  assumes "\<And>a b. le a b \<or> le b a"
    and "\<And>a b c. le a b \<Longrightarrow> le b c \<Longrightarrow> le a c"
  shows "sorted_wrt le (sort_by le xs)"
proof (induction xs)
  case Nil
  then show ?case by (simp add: sort_by_def)
next
  case (Cons x xs)
  have "sort_by le (x # xs) = insort_by le x (sort_by le xs)"
    by (simp add: sort_by_def)
  with Cons assms show ?case
    by (simp add: sorted_insort_by)
qed

lemma report_le_total: "report_le a b \<or> report_le b a"
  by (auto simp: report_le_def before_asc_def upto_desc_def split: option.splits)

lemma report_le_trans: "report_le a b \<Longrightarrow> report_le b c \<Longrightarrow> report_le a c"
  by (auto simp: report_le_def before_asc_def upto_desc_def split: option.splits)

lemma sorted_sort_values: "sorted_wrt report_le (rows (sort_values df))"
  using report_le_total report_le_trans
  by (simp add: sort_values_def sorted_sort_by)

lemma report_le_cells:
  assumes "cell r1 ''Quantity'' = PNum x" "cell r2 ''Quantity'' = PNum y"
    and "cell r1 ''Alert'' = PStr a" "cell r2 ''Alert'' = PStr b"
  shows "report_le r1 r2 \<longleftrightarrow> x < y \<or> (x = y \<and> b \<le> a)"
  using assms
  by (simp add: report_le_def before_asc_def upto_desc_def quantity_key_def alert_key_def
      num_of_def)

lemma warning_above_urgent: "\<not> WARNING \<le> URGENT"
  by simp


lemma report_scenario_d:
  "send_email_notification scenario_d =
     Inr (Some \<lparr>columns = report_columns,
                rows =
                  [[(''Site'', PStr ''Sheffield Parts Co. - TERP''), (''Part Name'', PStr ''Nut''),
                    (''Type'', PStr ''Part''), (''Model'', PStr ''M8''),
                    (''Internal Reference'', PStr ''N-8''), (''Price'', PNum 1),
                    (''Quantity'', PNum 3), (''Par Level'', PNum 10), (''Critical Level'', PNum 1),
                    (''Alert'', PStr WARNING)],
                   [(''Site'', PStr ''Sheffield Parts Co. - TERP''), (''Part Name'', PStr ''Bolt''),
                    (''Type'', PStr ''Part''), (''Model'', PStr ''M8''),
                    (''Internal Reference'', PStr ''B-8''), (''Price'', PNum 2),
                    (''Quantity'', PNum 3), (''Par Level'', PNum 10), (''Critical Level'', PNum 5),
                    (''Alert'', PStr URGENT)]]\<rparr>)"
  by (simp add: send_email_notification_def prepare_report_def where_eq_def filter_rows_def
      py_eq_def num_of_def cell_def rename_columns_def rename_label_def rename_table_def
      select_columns_def report_columns_def reindex_def sort_values_def sort_by_def
      report_le_def before_asc_def upto_desc_def quantity_key_def alert_key_def df_empty_def
      scenario_d_def)

lemma report_of_scenario_d:
  "send_email_notification scenario_d = Inr (Some (report_of scenario_d))"
  by (simp add: report_of_def report_scenario_d)

lemma labels_of_scenario_d:
  "alert_labels (report_of scenario_d) = [PStr WARNING, PStr URGENT]"
  by (simp add: report_of_def report_scenario_d alert_labels_def cell_def)

lemma names_of_scenario_d:
  "part_names (report_of scenario_d) = [PStr ''Nut'', PStr ''Bolt'']"
  by (simp add: report_of_def report_scenario_d part_names_def cell_def)

lemma send_email_notification_sorted:
  assumes "send_email_notification df = Inr (Some rep)"
  shows "\<exists>pre. prepare_report df = Inr pre \<and> rep = sort_values pre"
  using assms
  by (auto simp: send_email_notification_def Let_def split: sum.splits if_splits)

lemma sorted_report_pairs:
  assumes sorted: "sorted_wrt report_le rs"
    and ij: "i < j" "j < length rs"
    and cells: "cell (rs ! i) ''Quantity'' = PNum x" "cell (rs ! j) ''Quantity'' = PNum y"
      "cell (rs ! i) ''Alert'' = PStr a" "cell (rs ! j) ''Alert'' = PStr b"
  shows "x \<le> y \<and> (x = y \<longrightarrow> b \<le> a)"
proof -
  have "report_le (rs ! i) (rs ! j)"
    using sorted ij by (simp add: sorted_wrt_nth_less)
  then show ?thesis
    using cells by (auto simp: report_le_cells)
qed

lemma warning_row_first:
  assumes sorted: "sorted_wrt report_le rs"
    and len: "i < length rs" "j < length rs"
    and qty: "cell (rs ! i) ''Quantity'' = PNum x" "cell (rs ! j) ''Quantity'' = PNum x"
    and lab: "cell (rs ! i) ''Alert'' = PStr WARNING" "cell (rs ! j) ''Alert'' = PStr URGENT"
  shows "i < j"
proof (rule ccontr)
  assume "\<not> i < j"
  moreover have "i \<noteq> j"
    using lab by auto
  ultimately have "j < i" by simp
  from sorted_report_pairs [OF sorted this len(1) qty(2) qty(1) lab(2) lab(1)]
  have "WARNING \<le> URGENT" by simp
  then show False by simp
qed

text \<open>
  C6. The report that is mailed holds the rows of the prepared frame, ordered by
  ascending quantity and, among rows of equal quantity, by descending alert label; so of
  two rows with the same quantity the one labelled Warning stands before the one
  labelled URGENT.
\<close>

theorem report_sorted_quantity_then_label_descending:
  assumes "send_email_notification df = Inr (Some rep)"
  shows "(\<exists>pre. prepare_report df = Inr pre \<and> mset (rows rep) = mset (rows pre))
         \<and> (\<forall>i j x y a b. i < j \<and> j < length (rows rep)
               \<and> cell (rows rep ! i) ''Quantity'' = PNum x
               \<and> cell (rows rep ! j) ''Quantity'' = PNum y
               \<and> cell (rows rep ! i) ''Alert'' = PStr a
               \<and> cell (rows rep ! j) ''Alert'' = PStr b
               \<longrightarrow> x \<le> y \<and> (x = y \<longrightarrow> b \<le> a))
         \<and> (\<forall>i j x. i < length (rows rep) \<and> j < length (rows rep)
               \<and> cell (rows rep ! i) ''Quantity'' = PNum x
               \<and> cell (rows rep ! j) ''Quantity'' = PNum x
               \<and> cell (rows rep ! i) ''Alert'' = PStr WARNING
               \<and> cell (rows rep ! j) ''Alert'' = PStr URGENT
               \<longrightarrow> i < j)"
proof -
  from send_email_notification_sorted [OF assms]
  obtain pre where pre: "prepare_report df = Inr pre" "rep = sort_values pre"
    by blast
  have sorted: "sorted_wrt report_le (rows rep)"
    unfolding pre(2) by (rule sorted_sort_values)
  have "mset (rows rep) = mset (rows pre)"
    unfolding pre(2) by (simp add: sort_values_def mset_sort_by)
  with pre(1) have first: "\<exists>pre. prepare_report df = Inr pre \<and> mset (rows rep) = mset (rows pre)"
    by blast
  show ?thesis
  proof (intro conjI allI impI)
    show "\<exists>pre. prepare_report df = Inr pre \<and> mset (rows rep) = mset (rows pre)"
      by (rule first)
  next
    fix i j x y a b
    assume h: "i < j \<and> j < length (rows rep)
               \<and> cell (rows rep ! i) ''Quantity'' = PNum x
               \<and> cell (rows rep ! j) ''Quantity'' = PNum y
               \<and> cell (rows rep ! i) ''Alert'' = PStr a
               \<and> cell (rows rep ! j) ''Alert'' = PStr b"
    then have "x \<le> y \<and> (x = y \<longrightarrow> b \<le> a)"
      by (intro sorted_report_pairs [OF sorted, of i j]) simp_all
    then show "x \<le> y" and "x = y \<Longrightarrow> b \<le> a"
      by simp_all
  next
    fix i j x
    assume "i < length (rows rep) \<and> j < length (rows rep)
            \<and> cell (rows rep ! i) ''Quantity'' = PNum x
            \<and> cell (rows rep ! j) ''Quantity'' = PNum x
            \<and> cell (rows rep ! i) ''Alert'' = PStr WARNING
            \<and> cell (rows rep ! j) ''Alert'' = PStr URGENT"
    then show "i < j"
      by (intro warning_row_first [OF sorted, of i j x]) simp_all
  qed
qed

theorem report_sorted_quantity_then_label_descending_witness:
  "send_email_notification scenario_d = Inr (Some (report_of scenario_d))
   \<and> alert_labels (report_of scenario_d) = [PStr WARNING, PStr URGENT]
   \<and> (\<exists>pre. prepare_report scenario_d = Inr pre
          \<and> mset (rows (report_of scenario_d)) = mset (rows pre))"
proof -
  have "\<exists>pre. prepare_report scenario_d = Inr pre
          \<and> mset (rows (report_of scenario_d)) = mset (rows pre)"
    by (rule report_sorted_quantity_then_label_descending
        [OF report_of_scenario_d, THEN conjunct1])
  with report_of_scenario_d labels_of_scenario_d show ?thesis
    by (intro conjI)
qed

text \<open>
  C7, as the code has it. In a report with a row of quantity 3 labelled Warning and a row
  of quantity 3 labelled URGENT, the Warning row comes first: the label is the second
  key, in descending order, and Warning is the greater string.
\<close>

theorem equal_quantity_warning_before_urgent:
  assumes "send_email_notification df = Inr (Some rep)"
    and "i < length (rows rep)" "j < length (rows rep)"
    and "cell (rows rep ! i) ''Quantity'' = PNum 3" "cell (rows rep ! i) ''Alert'' = PStr WARNING"
    and "cell (rows rep ! j) ''Quantity'' = PNum 3" "cell (rows rep ! j) ''Alert'' = PStr URGENT"
  shows "i < j"
proof -
  from send_email_notification_sorted [OF assms(1)]
  obtain pre where "rep = sort_values pre"
    by blast
  then have "sorted_wrt report_le (rows rep)"
    by (simp add: sorted_sort_values)
  from warning_row_first [OF this assms(2,3,4,6,5,7)] show ?thesis .
qed

lemma rows_of_scenario_d:
  "length (rows (report_of scenario_d)) = 2"
  "cell (rows (report_of scenario_d) ! 0) ''Quantity'' = PNum 3"
  "cell (rows (report_of scenario_d) ! 0) ''Alert'' = PStr WARNING"
  "cell (rows (report_of scenario_d) ! 1) ''Quantity'' = PNum 3"
  "cell (rows (report_of scenario_d) ! 1) ''Alert'' = PStr URGENT"
  by (simp_all add: report_of_def report_scenario_d cell_def)

theorem equal_quantity_warning_before_urgent_witness:
  "send_email_notification scenario_d = Inr (Some (report_of scenario_d))
   \<and> cell (rows (report_of scenario_d) ! 0) ''Alert'' = PStr WARNING
   \<and> cell (rows (report_of scenario_d) ! 1) ''Alert'' = PStr URGENT
   \<and> (0::nat) < 1"
proof -
  have "(0::nat) < 1"
    by (rule equal_quantity_warning_before_urgent
        [OF report_of_scenario_d _ _ rows_of_scenario_d(2,3,4,5)])
      (simp_all add: rows_of_scenario_d(1))
  with report_of_scenario_d rows_of_scenario_d(3,5) show ?thesis
    by (intro conjI)
qed

theorem urgent_first_counterexample:
  "alert_labels (report_of scenario_d) = [PStr WARNING, PStr URGENT]
   \<and> hd (alert_labels (report_of scenario_d)) \<noteq> PStr URGENT"
  by (simp add: labels_of_scenario_d)

end
